theory Spec2Isabelle
  imports Complex_Main "HOL-Library.Sublist"
begin

section \<open>Threshold segmenter: methodOtsu.py, OtsuWaterMask.processAlgorithm\<close>

text \<open>
  The input is an index raster (NDWI, MNDWI): its band is read as an array of floats. A
  cell is a finite number or NaN; NaN is kept, since the code filters it and compares
  against it. A finite sample is the real number it denotes. The arithmetic of the
  rescaling, whose result is cast to a byte, is the platform's rounded arithmetic (see
  \<open>arr_norm\<close>); the threshold and the comparisons are computed on the reals. Overflow,
  infinities and, outside the rescaling, the wrap-around of an integer band are outside
  this development.
\<close>

datatype sample = NaN | Val real

text \<open>
  The exceptions the two algorithms can raise: numpy's ValueError for \<open>min\<close> of a
  zero-size array, Python's IndexError for a list index out of range and
  ZeroDivisionError for a float division by zero.
\<close>

datatype error = ValueError | IndexError | ZeroDivisionError

text \<open>numpy's elementwise comparisons: every comparison with NaN is False, but \<open>!=\<close>.\<close>

fun np_eq :: "sample \<Rightarrow> sample \<Rightarrow> bool" where
  "np_eq (Val a) (Val b) = (a = b)"
| "np_eq _ _ = False"

definition np_ne :: "sample \<Rightarrow> sample \<Rightarrow> bool" where
  "np_ne x y = (\<not> np_eq x y)"

fun np_ge :: "sample \<Rightarrow> real \<Rightarrow> bool" where
  "np_ge (Val a) t = (t \<le> a)"
| "np_ge NaN t = False"

fun isnan :: "sample \<Rightarrow> bool" where
  "isnan NaN = True"
| "isnan (Val a) = False"

text \<open>
  What \<open>gdal.Open(input_path)\<close> gives the algorithm: the first band as a 2D array (a list
  of rows), its no-data value (None when the band has none), the geotransform and the
  projection.
\<close>

record dataset =
  ReadAsArray :: "sample list list"
  NoDataValue :: "sample option"
  GeoTransform :: "real list"
  Projection :: string

text \<open>The GeoTIFF the algorithm creates: one band of bytes.\<close>

record gtiff =
  RasterXSize :: nat
  RasterYSize :: nat
  out_GeoTransform :: "real list"
  out_Projection :: string
  out_band :: "nat list list"
  out_NoDataValue :: "real option"

text \<open>
  The state the algorithm acts on: the files written by GDAL, by path, and the
  thresholds handed to the feedback log (\<open>feedback.pushInfo\<close>, whose message prints the
  value with four decimals).
\<close>

record state =
  files :: "string \<rightharpoonup> gtiff"
  info :: "real list"

text \<open>\<open>height, width = arr.shape\<close>\<close>

definition shape :: "'a list list \<Rightarrow> nat \<times> nat" where
  "shape a = (length a, (case a of [] \<Rightarrow> 0 | r # _ \<Rightarrow> length r))"

text \<open>
  \<open>valid_mask = np.ones_like(arr, dtype=bool); if nodata is not None: valid_mask = arr != nodata\<close>,
  at one cell.
\<close>

definition valid_mask :: "sample option \<Rightarrow> sample \<Rightarrow> bool" where
  "valid_mask nodata x = (case nodata of None \<Rightarrow> True | Some nd \<Rightarrow> np_ne x nd)"

text \<open>\<open>arr_valid[~np.isnan(arr_valid)]\<close>: the samples that are numbers, in order.\<close>

fun drop_nan :: "sample list \<Rightarrow> real list" where
  "drop_nan [] = []"
| "drop_nan (NaN # xs) = drop_nan xs"
| "drop_nan (Val a # xs) = a # drop_nan xs"

text \<open>
  \<open>arr_valid = arr[valid_mask]; arr_valid = arr_valid[~np.isnan(arr_valid)]\<close>: boolean
  indexing flattens the array in row-major order.
\<close>

definition arr_valid :: "sample list list \<Rightarrow> sample option \<Rightarrow> real list" where
  "arr_valid a nodata = drop_nan (filter (valid_mask nodata) (concat a))"

text \<open>\<open>ndarray.min()\<close> and \<open>ndarray.max()\<close> raise ValueError on a zero-size array.\<close>

fun np_min :: "real list \<Rightarrow> error + real" where
  "np_min [] = Inl ValueError"
| "np_min (x # xs) = Inr (fold min xs x)"

fun np_max :: "real list \<Rightarrow> error + real" where
  "np_max [] = Inl ValueError"
| "np_max (x # xs) = Inr (fold max xs x)"

text \<open>
  numpy evaluates \<open>(arr_valid - arr_min) / (arr_max - arr_min) * 255\<close> in the arithmetic of
  the arrays, not exactly, and the cast that follows discards the fraction, so the rounding
  of each operation decides the byte. What the code takes from its platform:
  \<^item> \<open>np_subtract\<close>, the subtraction of the band's type: for a float band the exact
    difference rounded to the nearest float of that type (for an integer band a
    subtraction that wraps around);
  \<^item> \<open>fl\<close>, the rounding of a real to the float type of the quotient and of the product
    (overflow to an infinity is outside the model);
  \<^item> \<open>cv2_otsu\<close>, the threshold that
    \<open>cv2.threshold(arr_norm, 0, 255, cv2.THRESH_BINARY + cv2.THRESH_OTSU)\<close> returns;
  \<^item> \<open>cast_undefined\<close>, the byte that \<open>astype(np.uint8)\<close> gives to a float it cannot
    represent (NaN, an infinity, a value whose integer part is outside 0..255), which C
    leaves undefined.
\<close>

datatype quotient = QNaN | QInf bool | QFin real

record platform =
  cv2_otsu :: "nat list \<Rightarrow> real"
  cast_undefined :: "quotient \<Rightarrow> nat"
  np_subtract :: "real \<Rightarrow> real \<Rightarrow> real"
  fl :: "real \<Rightarrow> real"

text \<open>
  The float division and the product with 255. numpy divides by zero without raising (it
  warns): 0 / 0 is NaN and x / 0 is an infinity of the sign of x (the divisor
  \<open>arr_max - arr_min\<close> is +0.0 when it is zero).
\<close>

definition np_true_divide :: "platform \<Rightarrow> real \<Rightarrow> real \<Rightarrow> quotient" where
  "np_true_divide pf a b =
     (if b \<noteq> 0 then QFin (fl pf (a / b)) else if a = 0 then QNaN else QInf (0 < a))"

fun np_multiply :: "platform \<Rightarrow> quotient \<Rightarrow> real \<Rightarrow> quotient" where
  "np_multiply pf (QFin x) c = QFin (fl pf (x * c))"
| "np_multiply pf QNaN c = QNaN"
| "np_multiply pf (QInf pos) c = (if c = 0 then QNaN else QInf (pos = (0 < c)))"

text \<open>\<open>astype(np.uint8)\<close>: the fraction is discarded (truncation toward zero).\<close>

definition astype_uint8 :: "platform \<Rightarrow> quotient \<Rightarrow> nat" where
  "astype_uint8 pf q =
     (case q of
        QFin x \<Rightarrow>
          if - 1 < x \<and> x < 256 then nat (if 0 \<le> x then \<lfloor>x\<rfloor> else \<lceil>x\<rceil>)
          else cast_undefined pf q
      | _ \<Rightarrow> cast_undefined pf q)"

text \<open>
  \<open>arr_norm = ((arr_valid - arr_min) / (arr_max - arr_min) * 255).astype(np.uint8)\<close>
\<close>

definition arr_norm :: "platform \<Rightarrow> real \<Rightarrow> real \<Rightarrow> real list \<Rightarrow> nat list" where
  "arr_norm pf arr_min arr_max vs =
     map (\<lambda>v. astype_uint8 pf
            (np_multiply pf
               (np_true_divide pf (np_subtract pf v arr_min) (np_subtract pf arr_max arr_min))
               255)) vs"

text \<open>
  \<open>threshold, _ = cv2.threshold(arr_norm, ...)\<close>;
  \<open>otsu_value = arr_min + (threshold / 255.0) * (arr_max - arr_min)\<close>
\<close>

definition otsu_value :: "platform \<Rightarrow> real \<Rightarrow> real \<Rightarrow> real list \<Rightarrow> real" where
  "otsu_value pf arr_min arr_max vs =
     (let threshold = cv2_otsu pf (arr_norm pf arr_min arr_max vs)
      in arr_min + (threshold / 255) * (arr_max - arr_min))"

text \<open>
  \<open>mask = np.zeros_like(arr, dtype=np.uint8); mask[arr >= otsu_value] = 1\<close>, and then
  \<open>if nodata is not None: mask[arr == nodata] = 0\<close>, at one cell.
\<close>

definition mask_cell :: "sample option \<Rightarrow> real \<Rightarrow> sample \<Rightarrow> nat" where
  "mask_cell nodata t x =
     (let m = (if np_ge x t then 1 else 0)
      in case nodata of None \<Rightarrow> m | Some nd \<Rightarrow> if np_eq x nd then 0 else m)"

definition mask :: "sample list list \<Rightarrow> sample option \<Rightarrow> real \<Rightarrow> nat list list" where
  "mask a nodata t = map (map (mask_cell nodata t)) a"

text \<open>
  The algorithm. The only statement that can raise is \<open>arr_valid.min()\<close>; it stands
  before the threshold is logged and before the output file is created. On success the
  algorithm returns the output path.
\<close>

definition OtsuWaterMask_processAlgorithm ::
  "platform \<Rightarrow> dataset \<Rightarrow> string \<Rightarrow> state \<Rightarrow> (error + string) \<times> state" where
  "OtsuWaterMask_processAlgorithm pf ds output_path st =
     (let a = ReadAsArray ds;
          nodata = NoDataValue ds;
          gt = GeoTransform ds;
          proj = Projection ds;
          (height, width) = shape a;
          vs = arr_valid a nodata
      in case np_min vs of
           Inl e \<Rightarrow> (Inl e, st)
         | Inr arr_min \<Rightarrow>
            (case np_max vs of
               Inl e \<Rightarrow> (Inl e, st)
             | Inr arr_max \<Rightarrow>
                (let t = otsu_value pf arr_min arr_max vs;
                     st1 = st\<lparr>info := info st @ [t]\<rparr>;
                     out_ds = \<lparr>RasterXSize = width, RasterYSize = height,
                               out_GeoTransform = gt, out_Projection = proj,
                               out_band = mask a nodata t, out_NoDataValue = Some 0\<rparr>
                 in (Inr output_path, st1\<lparr>files := (files st1)(output_path \<mapsto> out_ds)\<rparr>))))"

subsection \<open>The spec's wording and a reference platform\<close>

text \<open>
  The rescaling as the spec words it (4.1, step 3):
  \<open>scaled = round((value - min) / (max - min) * 255)\<close>, to be compared with \<open>arr_norm\<close>.
\<close>

definition spec_scaled :: "real \<Rightarrow> real \<Rightarrow> real \<Rightarrow> int" where
  "spec_scaled arr_min arr_max v = round ((v - arr_min) / (arr_max - arr_min) * 255)"

text \<open>
  Modelled from the spec: \<open>cv2.threshold\<close> with \<open>THRESH_OTSU\<close> is OpenCV's and not a
  file of this repository. The spec (4.1, step 4) describes it: over the 256 candidate
  split points, the threshold that maximizes the inter-class variance between the
  populations \<open>scaled < t\<close> and \<open>scaled \<ge> t\<close>, the smallest one on a tie. It instantiates
  \<open>cv2_otsu\<close> where a theorem is applied to a concrete raster.
\<close>

definition inter_class_variance :: "nat list \<Rightarrow> nat \<Rightarrow> real" where
  "inter_class_variance xs t =
     (let lo = filter (\<lambda>x. x < t) xs; hi = filter (\<lambda>x. t \<le> x) xs
      in if lo = [] \<or> hi = [] then 0
         else (real (length lo) / real (length xs)) * (real (length hi) / real (length xs)) *
              (real (sum_list lo) / real (length lo) - real (sum_list hi) / real (length hi))\<^sup>2)"

definition otsu_spec :: "nat list \<Rightarrow> real" where
  "otsu_spec xs =
     real (fold (\<lambda>t best. if inter_class_variance xs best < inter_class_variance xs t
                            then t else best)
             [1..<256] 0)"

text \<open>
  The rounding of a float64 band (IEEE 754 binary64): to the nearest number with a
  significand of 53 bits and an exponent of at least -1074 (gradual underflow), a tie
  going to the even significand. \<open>doubles\<close> is the set of these numbers; the exponent has
  no upper bound, there being no overflow in the model.
\<close>

definition round_to_even :: "real \<Rightarrow> int" where
  "round_to_even z =
     (let f = \<lfloor>z\<rfloor>
      in if z - of_int f < 1 / 2 then f
         else if 1 / 2 < z - of_int f then f + 1
         else if even f then f else f + 1)"

definition binary64 :: "real \<Rightarrow> real" where
  "binary64 x =
     (if x = 0 then 0
      else (let k = max (\<lfloor>log 2 \<bar>x\<bar>\<rfloor> - 52) (- 1074)
            in of_int (round_to_even (x / 2 powr of_int k)) * 2 powr of_int k))"

definition doubles :: "real set" where
  "doubles = {of_int m * 2 powr of_int e | m e. \<bar>m\<bar> \<le> 2 ^ 53 \<and> - 1074 \<le> e}"

text \<open>
  The platform of a float64 band, with the Otsu threshold of the spec and a cast that
  gives 0 to a float it cannot represent.
\<close>

definition reference_platform :: platform where
  "reference_platform =
     \<lparr>cv2_otsu = otsu_spec, cast_undefined = (\<lambda>q. 0),
      np_subtract = (\<lambda>a b. binary64 (a - b)), fl = binary64\<rparr>"

text \<open>Rasters the theorems are applied to.\<close>

definition empty_state :: state where
  "empty_state = \<lparr>files = Map.empty, info = []\<rparr>"

definition index_raster :: dataset where
  "index_raster =
     \<lparr>ReadAsArray = [[Val 0, Val 4], [NaN, Val (- 9999)]],
      NoDataValue = Some (Val (- 9999)),
      GeoTransform = [500000, 30, 0, 4000000, 0, - 30],
      Projection = ''EPSG:32637''\<rparr>"


definition nodata_raster :: dataset where
  "nodata_raster =
     \<lparr>ReadAsArray = [[Val (- 9999), NaN]],
      NoDataValue = Some (Val (- 9999)),
      GeoTransform = [500000, 30, 0, 4000000, 0, - 30],
      Projection = ''EPSG:32637''\<rparr>"

definition scaling_raster :: dataset where
  "scaling_raster =
     \<lparr>ReadAsArray = [[Val 0, Val 1, Val 4]],
      NoDataValue = None,
      GeoTransform = [500000, 30, 0, 4000000, 0, - 30],
      Projection = ''EPSG:32637''\<rparr>"

text \<open>A float64 band with the three doubles nearest to -0.3, 0 and 1.2.\<close>

definition float_raster :: dataset where
  "float_raster =
     \<lparr>ReadAsArray = [[Val (binary64 (- 3 / 10)), Val 0, Val (binary64 (12 / 10))]],
      NoDataValue = None,
      GeoTransform = [500000, 30, 0, 4000000, 0, - 30],
      Projection = ''EPSG:32637''\<rparr>"

section \<open>Object classifier: waterClassify.py, WaterObjectClassification.processAlgorithm\<close>

text \<open>
  A point of a geometry (QgsPointXY) and \<open>QgsPointXY.distance\<close>, the Euclidean distance.
  Coordinates and measures are exact reals.
\<close>

type_synonym point = "real \<times> real"

definition distance :: "point \<Rightarrow> point \<Rightarrow> real" where
  "distance p q = sqrt ((fst p - fst q)\<^sup>2 + (snd p - snd q)\<^sup>2)"

text \<open>
  A geometry is what the code observes of it. Of the rectangle
  \<open>min_rect_tuple[0]\<close>: \<open>isGeosValid()\<close> and the rings of \<open>asPolygon()\<close>. Of a polygon:
  \<open>area()\<close>, \<open>length()\<close> and \<open>orientedMinimumBoundingBox()\<close>, None when the code's test
  \<open>min_rect_tuple is not None\<close> fails.
\<close>

record rect_geom =
  isGeosValid :: bool
  asPolygon :: "point list list"

record geometry =
  geom_area :: real
  geom_length :: real
  orientedMinimumBoundingBox :: "rect_geom option"

text \<open>
  The five labels, which the source writes as the strings \<open>Reka\<close> (river), \<open>Ozero\<close>
  (lake), \<open>Erik\<close> (creek, oxbow channel), \<open>Prud\<close> (pond) and \<open>Vodoyom\<close> (generic water
  body) in Cyrillic letters.
\<close>

datatype water_class = Reka | Ozero | Erik | Prud | Vodoyom

text \<open>An attribute value (QVariant), a feature and a vector layer with its field names.\<close>

datatype variant = VInt int | VDouble real | VString string | VClass water_class

record feature =
  geometry :: geometry
  attributes :: "variant list"

text \<open>\<open>field_names\<close> are the names of \<open>fields()\<close>.\<close>

record layer =
  field_names :: "string list"
  features :: "feature list"

text \<open>
  \<open>native:extractbyattribute\<close> with \<open>FIELD = DN, OPERATOR = 0 (=), VALUE = 1\<close>, an
  algorithm of QGIS: the features whose attribute \<open>DN\<close> is 1, in the layer's order and
  with the layer's fields.
\<close>

definition attribute :: "layer \<Rightarrow> feature \<Rightarrow> string \<Rightarrow> variant option" where
  "attribute l f name = map_of (zip (field_names l) (attributes f)) name"

definition extractbyattribute :: "layer \<Rightarrow> layer" where
  "extractbyattribute vectorized =
     vectorized\<lparr>features :=
       filter (\<lambda>f. attribute vectorized f ''DN'' = Some (VInt 1)) (features vectorized)\<rparr>"

text \<open>
  \<open>side_lengths = [rect_coords[i].distance(rect_coords[i+1]) for i in range(4)]\<close>: the
  indices 0..4 are read, and Python raises IndexError when the ring has fewer than five
  points.
\<close>

definition side_lengths :: "point list \<Rightarrow> error + real list" where
  "side_lengths rect_coords =
     (if length rect_coords < 5 then Inl IndexError
      else Inr (map (\<lambda>i. distance (rect_coords ! i) (rect_coords ! (i + 1))) [0..<4]))"

text \<open>
  Lines 118 to 133: elongation and main axis from the oriented minimum bounding box.
  \<open>asPolygon()[0]\<close> raises IndexError when the polygon has no ring.
\<close>

definition elongation_main_axis :: "geometry \<Rightarrow> error + (real \<times> real)" where
  "elongation_main_axis geom =
     (case orientedMinimumBoundingBox geom of
        Some min_rect_geom \<Rightarrow>
          if isGeosValid min_rect_geom then
            (case asPolygon min_rect_geom of
               [] \<Rightarrow> Inl IndexError
             | rect_coords # _ \<Rightarrow>
                (case side_lengths rect_coords of
                   Inl e \<Rightarrow> Inl e
                 | Inr lens \<Rightarrow>
                    (let width = Min (set lens);
                         height = Max (set lens);
                         elongation = (if width > 0 then height / width else 1);
                         main_axis = Max (set lens)
                     in Inr (elongation, main_axis))))
          else Inr (1, 0)
      | None \<Rightarrow> Inr (1, 0))"

text \<open>Lines 136 to 145: the \<open>if\<close>/\<open>elif\<close> chain that chooses the label.\<close>

definition classify :: "real \<Rightarrow> real \<Rightarrow> real \<Rightarrow> water_class" where
  "classify ar elongation main_axis =
     (if main_axis > 8000 \<and> elongation > 3 then Reka
      else if ar > 500000 \<and> elongation < 2 then Ozero
      else if ar < 20000 \<and> elongation > 2 then Erik
      else if ar < 10000 then Prud
      else Vodoyom)"

text \<open>
  The body of the loop from \<open>geom = f.geometry()\<close> to \<open>new_f.setAttributes(attrs)\<close>: the
  feature that is added to the sink.
\<close>

definition process_feature :: "feature \<Rightarrow> error + feature" where
  "process_feature f =
     (let geom = geometry f;
          ar = geom_area geom;
          perim = geom_length geom
      in case elongation_main_axis geom of
           Inl e \<Rightarrow> Inl e
         | Inr (elongation, main_axis) \<Rightarrow>
             Inr \<lparr>geometry = geom,
                  attributes = attributes f @
                    [VDouble ar, VDouble perim, VDouble elongation, VDouble main_axis,
                     VClass (classify ar elongation main_axis)]\<rparr>)"

text \<open>
  What the loop acts on: the features added to the sink, the percentages given to
  \<open>feedback.setProgress\<close> and the number of calls of \<open>feedback.isCanceled()\<close> so far.
  Whether the user has cancelled is not the program's to decide: \<open>canceled k\<close> is the
  answer to call number \<open>k\<close> (from 0).
\<close>

record run_state =
  sink :: "feature list"
  progress :: "int list"
  polls :: nat

text \<open>Python's \<open>int(x)\<close> of a float: truncation toward zero.\<close>

definition py_int :: "real \<Rightarrow> int" where
  "py_int x = (if 0 \<le> x then \<lfloor>x\<rfloor> else \<lceil>x\<rceil>)"

text \<open>
  The loop \<open>for i, f in enumerate(only_water.getFeatures())\<close>; \<open>total_count\<close> is the
  source's \<open>total\<close>. It ends at the end of the
  features, at a \<open>break\<close> when the call of \<open>isCanceled()\<close> at the head of an iteration
  answers True, or at an exception: IndexError from the bounding rectangle, before the
  feature is added, or ZeroDivisionError from \<open>100 * i / total\<close>, after it is added.
\<close>

fun classify_loop ::
  "(nat \<Rightarrow> bool) \<Rightarrow> int \<Rightarrow> (nat \<times> feature) list \<Rightarrow> run_state \<Rightarrow> error option \<times> run_state" where
  "classify_loop canceled total_count [] st = (None, st)"
| "classify_loop canceled total_count ((i, f) # rest) st =
     (let st1 = st\<lparr>polls := polls st + 1\<rparr>
      in if canceled (polls st) then (None, st1)
         else (case process_feature f of
                 Inl e \<Rightarrow> (Some e, st1)
               | Inr new_f \<Rightarrow>
                   (let st2 = st1\<lparr>sink := sink st1 @ [new_f]\<rparr>
                    in if total_count = 0 then (Some ZeroDivisionError, st2)
                       else classify_loop canceled total_count rest
                              (st2\<lparr>progress := progress st2 @
                                    [py_int (100 * real i / real_of_int total_count)]\<rparr>))))"

text \<open>
  The algorithm from the layer that \<open>gdal:polygonize\<close> returned: the filter, the fields
  of the sink, the empty sink and the loop. It returns the exception, if one was raised,
  the fields of the sink and the final state. The removal of an older output file and the
  log messages act on nothing the loop reads and are left out.
\<close>

definition WaterObjectClassification_processAlgorithm ::
  "(nat \<Rightarrow> bool) \<Rightarrow> layer \<Rightarrow> error option \<times> string list \<times> run_state" where
  "WaterObjectClassification_processAlgorithm canceled vectorized =
     (let only_water = extractbyattribute vectorized;
          flds = field_names only_water @
            [''area_m2'', ''perimeter_m'', ''elongation'', ''main_axis'', ''class''];
          total_count = int (length (features only_water));
          (err, st) = classify_loop canceled total_count (enumerate 0 (features only_water))
                        \<lparr>sink = [], progress = [], polls = 0\<rparr>
      in (err, flds, st))"

subsection \<open>The spec's wording and example layers\<close>

text \<open>
  The classification rule as the spec words it (4.2, step 4): an ordered list of pairs of
  a condition on (area, elongation, main axis) and a label, the first match winning, and
  the generic water body when none matches. To be compared with \<open>classify\<close>.
\<close>

definition spec_rules :: "((real \<times> real \<times> real \<Rightarrow> bool) \<times> water_class) list" where
  "spec_rules =
     [(\<lambda>(ar, elongation, main_axis). main_axis > 8000 \<and> elongation > 3, Reka),
      (\<lambda>(ar, elongation, main_axis). ar > 500000 \<and> elongation < 2, Ozero),
      (\<lambda>(ar, elongation, main_axis). ar < 20000 \<and> elongation > 2, Erik),
      (\<lambda>(ar, elongation, main_axis). ar < 10000, Prud)]"

fun first_match :: "(('a \<Rightarrow> bool) \<times> 'b) list \<Rightarrow> 'b \<Rightarrow> 'a \<Rightarrow> 'b" where
  "first_match [] otherwise x = otherwise"
| "first_match ((cond, label) # rules) otherwise x =
     (if cond x then label else first_match rules otherwise x)"

text \<open>
  The bounding rectangles that raise no IndexError: a GEOS-valid rectangle has a first
  ring of at least five points (a closed ring of four corners).
\<close>

definition rect_well_formed :: "geometry \<Rightarrow> bool" where
  "rect_well_formed geom =
     (case orientedMinimumBoundingBox geom of
        None \<Rightarrow> True
      | Some r \<Rightarrow>
          if isGeosValid r
          then (case asPolygon r of [] \<Rightarrow> False | ring # _ \<Rightarrow> 5 \<le> length ring)
          else True)"

text \<open>
  A polygonized mask: a river 10000 by 2000, the background (DN = 0) and a pond of
  area 5000 whose bounding rectangle is not GEOS-valid.
\<close>

definition river :: feature where
  "river =
     \<lparr>geometry =
        \<lparr>geom_area = 20000000, geom_length = 24000,
         orientedMinimumBoundingBox =
           Some \<lparr>isGeosValid = True,
                 asPolygon = [[(0, 0), (10000, 0), (10000, 2000), (0, 2000), (0, 0)]]\<rparr>\<rparr>,
      attributes = [VInt 1]\<rparr>"

definition background :: feature where
  "background =
     \<lparr>geometry =
        \<lparr>geom_area = 80000000, geom_length = 60000,
         orientedMinimumBoundingBox =
           Some \<lparr>isGeosValid = True,
                 asPolygon = [[(0, 0), (10000, 0), (10000, 10000), (0, 10000), (0, 0)]]\<rparr>\<rparr>,
      attributes = [VInt 0]\<rparr>"

definition pond :: feature where
  "pond =
     \<lparr>geometry =
        \<lparr>geom_area = 5000, geom_length = 300,
         orientedMinimumBoundingBox = Some \<lparr>isGeosValid = False, asPolygon = []\<rparr>\<rparr>,
      attributes = [VInt 1]\<rparr>"

definition polygonized :: layer where
  "polygonized = \<lparr>field_names = [''DN''], features = [river, background, pond]\<rparr>"

text \<open>The features that the loop adds to the sink for \<open>river\<close> and \<open>pond\<close>.\<close>

definition river_out :: feature where
  "river_out = \<lparr>geometry = geometry river,
          attributes = [VInt 1, VDouble 20000000, VDouble 24000, VDouble 5, VDouble 10000,
                        VClass Reka]\<rparr>"

definition pond_out :: feature where
  "pond_out = \<lparr>geometry = geometry pond,
          attributes = [VInt 1, VDouble 5000, VDouble 300, VDouble 1, VDouble 0, VClass Prud]\<rparr>"

section \<open>Properties of the threshold segmenter\<close>

lemma drop_nan_empty: "drop_nan xs = [] \<longleftrightarrow> (\<forall>x\<in>set xs. isnan x)"
  by (induction xs rule: drop_nan.induct) auto



lemma arr_valid_empty:
  "arr_valid a nodata = [] \<longleftrightarrow> (\<forall>x\<in>set (concat a). \<not> valid_mask nodata x \<or> isnan x)"
  by (auto simp: arr_valid_def drop_nan_empty)

lemma np_min_Min: "vs \<noteq> [] \<Longrightarrow> np_min vs = Inr (Min (set vs))"
  using Min.set_eq_fold [of "hd vs" "tl vs"] by (cases vs) simp_all

lemma np_max_Max: "vs \<noteq> [] \<Longrightarrow> np_max vs = Inr (Max (set vs))"
  using Max.set_eq_fold [of "hd vs" "tl vs"] by (cases vs) simp_all

lemma mask_cell_one:
  "mask_cell nodata t x = 1 \<longleftrightarrow> valid_mask nodata x \<and> \<not> isnan x \<and> np_ge x t"
  by (cases x; cases nodata) (auto simp: mask_cell_def valid_mask_def np_ne_def)

lemma mask_cell_binary: "mask_cell nodata t x = 0 \<or> mask_cell nodata t x = 1"
  by (cases nodata) (auto simp: mask_cell_def)

lemma mask_cell_nodata: "np_eq x nd \<Longrightarrow> mask_cell (Some nd) t x = 0"
  by (simp add: mask_cell_def)

lemma mask_cell_nan: "mask_cell nodata t NaN = 0"
  by (cases nodata) (auto simp: mask_cell_def)

lemma OtsuWaterMask_processAlgorithm_success:
  assumes "arr_valid (ReadAsArray ds) (NoDataValue ds) \<noteq> []"
  shows "OtsuWaterMask_processAlgorithm pf ds p st =
     (Inr p,
      st\<lparr>info := info st @ [otsu_value pf (Min (set (arr_valid (ReadAsArray ds) (NoDataValue ds))))
                                (Max (set (arr_valid (ReadAsArray ds) (NoDataValue ds))))
                                (arr_valid (ReadAsArray ds) (NoDataValue ds))],
         files := (files st)(p \<mapsto>
           \<lparr>RasterXSize = snd (shape (ReadAsArray ds)), RasterYSize = fst (shape (ReadAsArray ds)),
            out_GeoTransform = GeoTransform ds, out_Projection = Projection ds,
            out_band = mask (ReadAsArray ds) (NoDataValue ds)
               (otsu_value pf (Min (set (arr_valid (ReadAsArray ds) (NoDataValue ds))))
                                (Max (set (arr_valid (ReadAsArray ds) (NoDataValue ds))))
                                (arr_valid (ReadAsArray ds) (NoDataValue ds))),
            out_NoDataValue = Some 0\<rparr>)\<rparr>)"
  using assms
  by (simp add: OtsuWaterMask_processAlgorithm_def np_min_Min np_max_Max Let_def split: prod.splits)

lemma OtsuWaterMask_processAlgorithm_failure:
  assumes "arr_valid (ReadAsArray ds) (NoDataValue ds) = []"
  shows "OtsuWaterMask_processAlgorithm pf ds p st = (Inl ValueError, st)"
  using assms by (simp add: OtsuWaterMask_processAlgorithm_def Let_def split: prod.splits)


lemma mask_nth:
  "i < length a \<Longrightarrow> j < length (a ! i) \<Longrightarrow> mask a nodata t ! i ! j = mask_cell nodata t (a ! i ! j)"
  by (simp add: mask_def)

lemma mask_length: "length (mask a nodata t) = length a"
  by (simp add: mask_def)

lemma mask_row_length: "i < length a \<Longrightarrow> length (mask a nodata t ! i) = length (a ! i)"
  by (simp add: mask_def)

text \<open>
  Claim C1. When the raster has a valid sample the algorithm succeeds, logs its threshold
  \<open>t\<close> and writes a mask with the rows and row lengths of the input, its geotransform
  and its projection; a mask cell is 1 iff the input cell differs from the no-data value,
  is not NaN and is \<open>\<ge> t\<close>, and is 0 otherwise; a cell equal to the no-data value and a
  NaN cell are 0.
\<close>

theorem mask_output:
  assumes "arr_valid (ReadAsArray ds) (NoDataValue ds) \<noteq> []"
  shows "\<exists>out t st'.
     OtsuWaterMask_processAlgorithm pf ds p st = (Inr p, st') \<and>
     info st' = info st @ [t] \<and>
     files st' p = Some out \<and>
     (RasterYSize out, RasterXSize out) = shape (ReadAsArray ds) \<and>
     length (out_band out) = length (ReadAsArray ds) \<and>
     (\<forall>i < length (ReadAsArray ds).
        length (out_band out ! i) = length (ReadAsArray ds ! i) \<and>
        (\<forall>j < length (ReadAsArray ds ! i).
           (out_band out ! i ! j = 1 \<longleftrightarrow>
              valid_mask (NoDataValue ds) (ReadAsArray ds ! i ! j) \<and>
              \<not> isnan (ReadAsArray ds ! i ! j) \<and> np_ge (ReadAsArray ds ! i ! j) t) \<and>
           (out_band out ! i ! j \<noteq> 1 \<longrightarrow> out_band out ! i ! j = 0) \<and>
           (\<forall>nd. NoDataValue ds = Some nd \<and> np_eq (ReadAsArray ds ! i ! j) nd \<longrightarrow>
                 out_band out ! i ! j = 0) \<and>
           (isnan (ReadAsArray ds ! i ! j) \<longrightarrow> out_band out ! i ! j = 0))) \<and>
     out_GeoTransform out = GeoTransform ds \<and>
     out_Projection out = Projection ds"
proof -
  let ?a = "ReadAsArray ds" and ?nd = "NoDataValue ds"
  let ?vs = "arr_valid ?a ?nd"
  let ?t = "otsu_value pf (Min (set ?vs)) (Max (set ?vs)) ?vs"
  let ?out = "\<lparr>RasterXSize = snd (shape ?a), RasterYSize = fst (shape ?a),
            out_GeoTransform = GeoTransform ds, out_Projection = Projection ds,
            out_band = mask ?a ?nd ?t, out_NoDataValue = Some 0\<rparr>"
  let ?st' = "st\<lparr>info := info st @ [?t], files := (files st)(p \<mapsto> ?out)\<rparr>"
  have run: "OtsuWaterMask_processAlgorithm pf ds p st = (Inr p, ?st')"
    using OtsuWaterMask_processAlgorithm_success [OF assms] .
  have cells: "\<forall>i < length ?a.
        length (out_band ?out ! i) = length (?a ! i) \<and>
        (\<forall>j < length (?a ! i).
           (out_band ?out ! i ! j = 1 \<longleftrightarrow>
              valid_mask ?nd (?a ! i ! j) \<and> \<not> isnan (?a ! i ! j) \<and> np_ge (?a ! i ! j) ?t) \<and>
           (out_band ?out ! i ! j \<noteq> 1 \<longrightarrow> out_band ?out ! i ! j = 0) \<and>
           (\<forall>nd. ?nd = Some nd \<and> np_eq (?a ! i ! j) nd \<longrightarrow> out_band ?out ! i ! j = 0) \<and>
           (isnan (?a ! i ! j) \<longrightarrow> out_band ?out ! i ! j = 0))"
  proof (intro allI impI conjI)
    fix i assume i: "i < length ?a"
    show "length (out_band ?out ! i) = length (?a ! i)"
      using i by (simp add: mask_row_length)
    fix j assume j: "j < length (?a ! i)"
    have cell: "out_band ?out ! i ! j = mask_cell ?nd ?t (?a ! i ! j)"
      using i j by (simp add: mask_nth)
    show "out_band ?out ! i ! j = 1 \<longleftrightarrow>
              valid_mask ?nd (?a ! i ! j) \<and> \<not> isnan (?a ! i ! j) \<and> np_ge (?a ! i ! j) ?t"
      unfolding cell by (rule mask_cell_one)
    show "out_band ?out ! i ! j = 0" if "out_band ?out ! i ! j \<noteq> 1"
      using that mask_cell_binary [of ?nd ?t "?a ! i ! j"] unfolding cell by blast
    show "out_band ?out ! i ! j = 0" if "?nd = Some nd \<and> np_eq (?a ! i ! j) nd" for nd
      using that unfolding cell by (simp add: mask_cell_nodata)
    show "out_band ?out ! i ! j = 0" if "isnan (?a ! i ! j)"
      using that unfolding cell by (cases "?a ! i ! j") (simp_all add: mask_cell_nan)
  qed
  show ?thesis
    apply (rule exI [of _ ?out], rule exI [of _ ?t], rule exI [of _ ?st'])
    apply (intro conjI)
           apply (rule run)
          apply simp
         apply simp
        apply simp
       apply (simp add: mask_length)
      apply (rule cells)
     apply simp
    apply simp
    done
qed

text \<open>
  Claim C4. When every cell equals the no-data value or is NaN, the algorithm fails: it
  raises the ValueError of \<open>arr_valid.min()\<close> on the empty array of valid samples (the
  failure the spec labels EmptyInputError), and the state is the one it started from, so
  nothing is logged and no raster is written.
\<close>

theorem empty_input_fails:
  assumes "\<forall>row \<in> set (ReadAsArray ds). \<forall>x \<in> set row.
             (\<exists>nd. NoDataValue ds = Some nd \<and> np_eq x nd) \<or> isnan x"
  shows "OtsuWaterMask_processAlgorithm pf ds p st = (Inl ValueError, st)"
proof -
  have "arr_valid (ReadAsArray ds) (NoDataValue ds) = []"
    unfolding arr_valid_empty
  proof
    fix x assume "x \<in> set (concat (ReadAsArray ds))"
    then obtain row where "row \<in> set (ReadAsArray ds)" "x \<in> set row" by auto
    with assms have "(\<exists>nd. NoDataValue ds = Some nd \<and> np_eq x nd) \<or> isnan x" by blast
    then show "\<not> valid_mask (NoDataValue ds) x \<or> isnan x"
      by (auto simp: valid_mask_def np_ne_def)
  qed
  then show ?thesis by (rule OtsuWaterMask_processAlgorithm_failure)
qed


lemma fold_best_stays:
  "\<forall>t\<in>set ts. \<not> f b < f t \<Longrightarrow>
   fold (\<lambda>t best. if f best < f t then t else best) ts b = b"
  by (induction ts) auto


lemma icv_two: "1 \<le> t \<Longrightarrow> t \<le> 255 \<Longrightarrow> inter_class_variance [0, 255] t = 65025 / 4"
  by (simp add: inter_class_variance_def)

lemma otsu_spec_two: "otsu_spec [0, 255] = 1"
proof -
  let ?f = "inter_class_variance [0, 255]"
  let ?step = "\<lambda>t best. if ?f best < ?f t then t else best"
  have up: "[1..<256] = 1 # [Suc 1..<256]"
    by (rule upt_conv_Cons) simp
  have f0: "?f 0 = 0" by (simp add: inter_class_variance_def)
  have "fold ?step [1..<256] 0 = fold ?step [Suc 1..<256] 1"
    unfolding up using f0 icv_two [of 1] by (simp del: upt_rec_numeral)
  also have "\<dots> = 1"
    by (rule fold_best_stays) (simp add: icv_two del: upt_rec_numeral)
  finally show ?thesis by (simp add: otsu_spec_def del: upt_rec_numeral)
qed





text \<open>
  The rounding \<open>binary64\<close> gives a nearest element of \<open>doubles\<close>; so it is monotone and
  leaves a double as it is.
\<close>

lemma round_to_even_nearest: "\<bar>z - of_int (round_to_even z)\<bar> \<le> \<bar>z - of_int m\<bar>"
proof -
  have f: "of_int \<lfloor>z\<rfloor> \<le> z" "z < of_int \<lfloor>z\<rfloor> + 1" by linarith+
  consider "m \<le> \<lfloor>z\<rfloor>" | "\<lfloor>z\<rfloor> + 1 \<le> m" by linarith
  then show ?thesis
  proof cases
    case 1
    then have "(of_int m :: real) \<le> of_int \<lfloor>z\<rfloor>" by simp
    with f show ?thesis by (auto simp: round_to_even_def Let_def) 
  next
    case 2
    then have "(of_int \<lfloor>z\<rfloor> :: real) + 1 \<le> of_int m" by (metis of_int_1 of_int_add of_int_le_iff)
    with f show ?thesis by (auto simp: round_to_even_def Let_def)
  qed
qed

lemma round_to_even_cases:
  "round_to_even z = \<lfloor>z\<rfloor> \<or> (round_to_even z = \<lfloor>z\<rfloor> + 1 \<and> 1 / 2 \<le> z - of_int \<lfloor>z\<rfloor>)"
  by (auto simp: round_to_even_def Let_def)

lemma round_to_even_abs_le:
  assumes "\<bar>z\<bar> \<le> of_int n"
  shows "\<bar>round_to_even z\<bar> \<le> n"
proof -
  from assms have b: "- of_int n \<le> z" "z \<le> of_int n" by linarith+
  then have fb: "- n \<le> \<lfloor>z\<rfloor>" "\<lfloor>z\<rfloor> \<le> n" by (simp_all add: le_floor_iff floor_le_iff)
  from round_to_even_cases [of z] show ?thesis
  proof
    assume "round_to_even z = \<lfloor>z\<rfloor>"
    with fb show ?thesis by simp
  next
    assume a: "round_to_even z = \<lfloor>z\<rfloor> + 1 \<and> 1 / 2 \<le> z - of_int \<lfloor>z\<rfloor>"
    then have "of_int \<lfloor>z\<rfloor> < z" by linarith
    with b(2) have "(of_int \<lfloor>z\<rfloor> :: real) < of_int n" by linarith
    then have "\<lfloor>z\<rfloor> < n" by (simp only: of_int_less_iff)
    with fb a show ?thesis by simp
  qed
qed

lemma binade:
  assumes "x \<noteq> 0"
  shows "2 powr of_int \<lfloor>log 2 \<bar>x\<bar>\<rfloor> \<le> \<bar>x\<bar>" and "\<bar>x\<bar> < 2 powr (of_int \<lfloor>log 2 \<bar>x\<bar>\<rfloor> + 1)"
  using floor_log_eq_powr_iff [of "\<bar>x\<bar>" 2 "\<lfloor>log 2 \<bar>x\<bar>\<rfloor>"] assms by simp_all

lemma pow2_int: "0 \<le> i \<Longrightarrow> (2::real) powr of_int i = of_int (2 ^ nat i)"
  by (simp add: powr_real_of_int)

lemma grid_nearest:
  assumes "0 < q"
  shows "\<bar>x - of_int (round_to_even (x / q)) * q\<bar> \<le> \<bar>x - of_int j * q\<bar>"
proof -
  have "\<bar>x / q - of_int (round_to_even (x / q))\<bar> * q \<le> \<bar>x / q - of_int j\<bar> * q"
    using round_to_even_nearest [of "x / q" j] assms by (simp add: mult_right_mono)
  moreover have "\<bar>x / q - of_int i\<bar> * q = \<bar>x - of_int i * q\<bar>" for i
  proof -
    have "\<bar>x / q - of_int i\<bar> * q = \<bar>(x / q - of_int i) * q\<bar>"
      using assms by (simp add: abs_mult)
    also have "(x / q - of_int i) * q = x - of_int i * q"
      using assms by (simp add: field_simps)
    finally show ?thesis .
  qed
  ultimately show ?thesis by simp
qed

lemma binary64_nearest:
  assumes "d \<in> doubles"
  shows "\<bar>x - binary64 x\<bar> \<le> \<bar>x - d\<bar>"
proof (cases "x = 0")
  case True
  then show ?thesis by (simp add: binary64_def)
next
  case False
  define E where "E = \<lfloor>log 2 \<bar>x\<bar>\<rfloor>"
  define k where "k = max (E - 52) (- 1074)"
  define q :: real where "q = 2 powr of_int k"
  define n where "n = round_to_even (x / q)"
  have q: "0 < q" by (simp add: q_def)
  have fl: "binary64 x = of_int n * q"
    using False by (simp add: binary64_def Let_def E_def k_def q_def n_def)
  have grid: "\<bar>x - of_int n * q\<bar> \<le> \<bar>x - of_int j * q\<bar>" for j
    unfolding n_def using q by (rule grid_nearest)
  from assms obtain m e where d: "d = of_int m * 2 powr of_int e"
    and m: "\<bar>m\<bar> \<le> 2 ^ 53" and e: "- 1074 \<le> e"
    by (auto simp: doubles_def)
  show ?thesis
  proof (cases "k \<le> e")
    case True
    have "2 powr of_int e = 2 powr of_int (e - k) * q"
      by (simp add: q_def powr_add [symmetric])
    also have "(2::real) powr of_int (e - k) = of_int (2 ^ nat (e - k))"
      using True by (intro pow2_int) simp
    finally have "d = of_int (m * 2 ^ nat (e - k)) * q"
      unfolding d by simp
    then show ?thesis unfolding fl using grid [of "m * 2 ^ nat (e - k)"] by simp
  next
    case lt: False
    with e have kE: "k = E - 52" by (simp add: k_def max_def split: if_splits)
    have lo: "2 powr of_int E \<le> \<bar>x\<bar>" unfolding E_def using False by (rule binade(1))
    have "\<bar>d\<bar> = of_int \<bar>m\<bar> * 2 powr of_int e" unfolding d by (simp add: abs_mult)
    also have "\<dots> \<le> of_int (2 ^ 53) * 2 powr of_int e"
      using m by (intro mult_right_mono) (simp_all only: of_int_le_iff powr_ge_zero)
    also have "of_int (2 ^ 53) * 2 powr of_int e = (2::real) powr of_int (53 + e)"
      by (simp add: powr_add)
    also have "\<dots> \<le> 2 powr of_int E"
      using lt kE by (intro powr_mono) simp_all
    finally have dE: "\<bar>d\<bar> \<le> 2 powr of_int E" .
    have g: "2 powr of_int E = of_int (2 ^ 52) * q"
      unfolding q_def kE by (simp add: powr_diff)
    have "\<bar>x - of_int n * q\<bar> \<le> \<bar>x - d\<bar>"
    proof (cases "0 < x")
      case True
      have "\<bar>x - of_int n * q\<bar> \<le> \<bar>x - of_int (2 ^ 52) * q\<bar>" by (rule grid)
      also have "\<dots> = x - 2 powr of_int E" using lo True unfolding g by simp
      also have "\<dots> \<le> \<bar>x - d\<bar>" using dE by linarith
      finally show ?thesis .
    next
      case neg: False
      have "\<bar>x - of_int n * q\<bar> \<le> \<bar>x - of_int (- (2 ^ 52)) * q\<bar>" by (rule grid)
      also have "\<dots> = - x - 2 powr of_int E" using lo neg False unfolding g by simp
      also have "\<dots> \<le> \<bar>x - d\<bar>" using dE by linarith
      finally show ?thesis .
    qed
    then show ?thesis unfolding fl .
  qed
qed

lemma doublesI: "\<bar>m\<bar> \<le> 2 ^ 53 \<Longrightarrow> - 1074 \<le> e \<Longrightarrow> d = of_int m * 2 powr of_int e \<Longrightarrow> d \<in> doubles"
  unfolding doubles_def by blast

lemma binary64_in_doubles: "binary64 x \<in> doubles"
proof (cases "x = 0")
  case True
  have "(0::real) \<in> doubles" by (rule doublesI [of 0 0]) simp_all
  with True show ?thesis by (simp add: binary64_def)
next
  case False
  define E where "E = \<lfloor>log 2 \<bar>x\<bar>\<rfloor>"
  define k where "k = max (E - 52) (- 1074)"
  define q :: real where "q = 2 powr of_int k"
  define n where "n = round_to_even (x / q)"
  have q: "0 < q" by (simp add: q_def)
  have fl: "binary64 x = of_int n * q"
    using False by (simp add: binary64_def Let_def E_def k_def q_def n_def)
  have "\<bar>x\<bar> < 2 powr (of_int E + 1)" unfolding E_def using False by (rule binade(2))
  also have "\<dots> \<le> 2 powr (of_int (k + 53))"
    by (intro powr_mono) (simp_all add: k_def)
  also have "\<dots> = of_int (2 ^ 53) * q" by (simp add: q_def powr_add)
  finally have "\<bar>x\<bar> / q \<le> of_int (2 ^ 53)" using q by (simp add: field_simps)
  then have "\<bar>x / q\<bar> \<le> of_int (2 ^ 53)" using q by simp
  then have "\<bar>n\<bar> \<le> 2 ^ 53" unfolding n_def by (rule round_to_even_abs_le)
  moreover have "- 1074 \<le> k" by (simp add: k_def)
  ultimately show ?thesis unfolding fl q_def doubles_def by blast
qed

lemma closer_right:
  fixes a b x :: real
  assumes "a < b" and "\<bar>x - b\<bar> \<le> \<bar>x - a\<bar>"
  shows "(a + b) / 2 \<le> x"
  using assms by (auto simp: abs_if split: if_splits)

lemma closer_left:
  fixes a b y :: real
  assumes "a < b" and "\<bar>y - a\<bar> \<le> \<bar>y - b\<bar>"
  shows "y \<le> (a + b) / 2"
  using assms by (auto simp: abs_if split: if_splits)

lemma nearest_mono:
  fixes f :: "real \<Rightarrow> real"
  assumes "\<And>x. f x \<in> D" and "\<And>x d. d \<in> D \<Longrightarrow> \<bar>x - f x\<bar> \<le> \<bar>x - d\<bar>" and "x \<le> y"
  shows "f x \<le> f y"
proof (rule ccontr)
  assume "\<not> f x \<le> f y"
  then have lt: "f y < f x" by simp
  have "\<bar>x - f x\<bar> \<le> \<bar>x - f y\<bar>" by (intro assms(2) assms(1))
  with lt have "(f y + f x) / 2 \<le> x" by (rule closer_right)
  moreover have "\<bar>y - f y\<bar> \<le> \<bar>y - f x\<bar>" by (intro assms(2) assms(1))
  with lt have "y \<le> (f y + f x) / 2" by (rule closer_left)
  ultimately have "x = y" using assms(3) by simp
  with lt show False by simp
qed

lemma binary64_mono: "x \<le> y \<Longrightarrow> binary64 x \<le> binary64 y"
  by (rule nearest_mono [of binary64 doubles]) (simp_all add: binary64_in_doubles binary64_nearest)

lemma binary64_exact: "d \<in> doubles \<Longrightarrow> binary64 d = d"
  using binary64_nearest [of d d] by simp

lemma binary64_0: "binary64 0 = 0"
  by (simp add: binary64_def)

lemma binary64_1: "binary64 1 = 1"
  by (rule binary64_exact, rule doublesI [of 1 0]) simp_all

lemma binary64_4: "binary64 4 = 4"
  by (rule binary64_exact, rule doublesI [of 4 0]) simp_all

lemma binary64_255: "binary64 255 = 255"
  by (rule binary64_exact, rule doublesI [of 255 0]) simp_all

lemma binary64_quarter: "binary64 (1 / 4) = 1 / 4"
  by (rule binary64_exact, rule doublesI [of 1 "- 2"]) (simp_all add: powr_neg_numeral)

lemma binary64_255_quarters: "binary64 (255 / 4) = 255 / 4"
  by (rule binary64_exact, rule doublesI [of 255 "- 2"]) (simp_all add: powr_neg_numeral)

lemma index_raster_valid:
  "arr_valid (ReadAsArray index_raster) (NoDataValue index_raster) = [0, 4]"
  by (simp add: index_raster_def arr_valid_def valid_mask_def np_ne_def)

lemma index_raster_norm: "arr_norm reference_platform 0 4 [0, 4] = [0, 255]"
  by (simp add: arr_norm_def np_true_divide_def astype_uint8_def reference_platform_def
      binary64_0 binary64_1 binary64_4 binary64_255)

lemma index_raster_run:
  "fst (OtsuWaterMask_processAlgorithm reference_platform index_raster ''mask.tif'' empty_state)
     = Inr ''mask.tif'' \<and>
   info (snd (OtsuWaterMask_processAlgorithm reference_platform index_raster ''mask.tif'' empty_state))
     = [4 / 255] \<and>
   files (snd (OtsuWaterMask_processAlgorithm reference_platform index_raster ''mask.tif'' empty_state))
     ''mask.tif''
     = Some \<lparr>RasterXSize = 2, RasterYSize = 2,
           out_GeoTransform = [500000, 30, 0, 4000000, 0, - 30],
           out_Projection = ''EPSG:32637'',
           out_band = [[0, 1], [0, 0]], out_NoDataValue = Some 0\<rparr>"
proof -
  have t: "otsu_value reference_platform 0 4 [0, 4] = 4 / 255"
    by (simp add: otsu_value_def index_raster_norm)
       (simp add: reference_platform_def otsu_spec_two)
  show ?thesis
    using OtsuWaterMask_processAlgorithm_success [of index_raster reference_platform "''mask.tif''" empty_state]
    by (simp add: index_raster_valid t)
       (simp add: index_raster_def mask_def mask_cell_def shape_def empty_state_def)
qed

text \<open>Claim C1 at \<open>index_raster\<close>: the mask is \<open>[[0, 1], [0, 0]]\<close>.\<close>

theorem mask_output_witness:
  "arr_valid (ReadAsArray index_raster) (NoDataValue index_raster) \<noteq> [] \<and>
   fst (OtsuWaterMask_processAlgorithm reference_platform index_raster ''mask.tif'' empty_state)
     = Inr ''mask.tif'' \<and>
   info (snd (OtsuWaterMask_processAlgorithm reference_platform index_raster ''mask.tif'' empty_state))
     = [4 / 255] \<and>
   files (snd (OtsuWaterMask_processAlgorithm reference_platform index_raster ''mask.tif'' empty_state))
     ''mask.tif''
     = Some \<lparr>RasterXSize = 2, RasterYSize = 2,
           out_GeoTransform = [500000, 30, 0, 4000000, 0, - 30],
           out_Projection = ''EPSG:32637'',
           out_band = [[0, 1], [0, 0]], out_NoDataValue = Some 0\<rparr> \<and>
   (\<exists>out t st'.
     OtsuWaterMask_processAlgorithm reference_platform index_raster ''mask.tif'' empty_state
       = (Inr ''mask.tif'', st') \<and>
     info st' = info empty_state @ [t] \<and>
     files st' ''mask.tif'' = Some out \<and>
     (RasterYSize out, RasterXSize out) = shape (ReadAsArray index_raster) \<and>
     length (out_band out) = length (ReadAsArray index_raster) \<and>
     (\<forall>i < length (ReadAsArray index_raster).
        length (out_band out ! i) = length (ReadAsArray index_raster ! i) \<and>
        (\<forall>j < length (ReadAsArray index_raster ! i).
           (out_band out ! i ! j = 1 \<longleftrightarrow>
              valid_mask (NoDataValue index_raster) (ReadAsArray index_raster ! i ! j) \<and>
              \<not> isnan (ReadAsArray index_raster ! i ! j) \<and>
              np_ge (ReadAsArray index_raster ! i ! j) t) \<and>
           (out_band out ! i ! j \<noteq> 1 \<longrightarrow> out_band out ! i ! j = 0) \<and>
           (\<forall>nd. NoDataValue index_raster = Some nd \<and>
                 np_eq (ReadAsArray index_raster ! i ! j) nd \<longrightarrow>
                 out_band out ! i ! j = 0) \<and>
           (isnan (ReadAsArray index_raster ! i ! j) \<longrightarrow> out_band out ! i ! j = 0))) \<and>
     out_GeoTransform out = GeoTransform index_raster \<and>
     out_Projection out = Projection index_raster)"
proof -
  have h: "arr_valid (ReadAsArray index_raster) (NoDataValue index_raster) \<noteq> []"
    by (simp add: index_raster_valid)
  show ?thesis
    using h index_raster_run
      mask_output [OF h, of reference_platform "''mask.tif''" empty_state]
    by (elim conjE, intro conjI) assumption+
qed

text \<open>Claim C4 at \<open>nodata_raster\<close>.\<close>

theorem empty_input_fails_witness:
  "ReadAsArray nodata_raster = [[Val (- 9999), NaN]] \<and>
   NoDataValue nodata_raster = Some (Val (- 9999)) \<and>
   np_eq (Val (- 9999)) (Val (- 9999)) \<and> isnan NaN \<and>
   OtsuWaterMask_processAlgorithm reference_platform nodata_raster ''mask.tif'' empty_state
     = (Inl ValueError, empty_state)"
proof -
  have h: "\<forall>row \<in> set (ReadAsArray nodata_raster). \<forall>x \<in> set row.
      (\<exists>nd. NoDataValue nodata_raster = Some nd \<and> np_eq x nd) \<or> isnan x"
    by (simp add: nodata_raster_def)
  show ?thesis
    using empty_input_fails [OF h, of reference_platform "''mask.tif''" empty_state]
    by (simp add: nodata_raster_def)
qed


lemma scaled_float_bounds:
  assumes mono: "\<forall>x y. x \<le> y \<longrightarrow> fl pf x \<le> fl pf y"
    and exact: "fl pf 0 = 0 \<and> fl pf 1 = 1 \<and> fl pf 255 = 255"
    and v: "mn \<le> v" "v \<le> mx"
    and nz: "fl pf (mx - mn) \<noteq> 0"
  shows "0 \<le> fl pf (fl pf (fl pf (v - mn) / fl pf (mx - mn)) * 255)"
    and "fl pf (fl pf (fl pf (v - mn) / fl pf (mx - mn)) * 255) \<le> 255"
proof -
  define a where "a = fl pf (v - mn)"
  define b where "b = fl pf (mx - mn)"
  define q where "q = fl pf (a / b)"
  have a0: "0 \<le> a"
    using mono [rule_format, of 0 "v - mn"] v(1) exact by (simp add: a_def)
  have ab: "a \<le> b"
    unfolding a_def b_def using v(2) by (intro mono [rule_format]) simp
  have b0: "0 < b" using a0 ab nz by (simp add: b_def)
  have "0 \<le> a / b" "a / b \<le> 1" using a0 ab b0 by simp_all
  then have q: "0 \<le> q" "q \<le> 1"
    using mono [rule_format, of 0 "a / b"] mono [rule_format, of "a / b" 1] exact
    by (simp_all add: q_def)
  then have "0 \<le> q * 255" "q * 255 \<le> 255" by simp_all
  then have "0 \<le> fl pf (q * 255)" "fl pf (q * 255) \<le> 255"
    using mono [rule_format, of 0 "q * 255"] mono [rule_format, of "q * 255" 255] exact
    by simp_all
  then show "0 \<le> fl pf (fl pf (fl pf (v - mn) / fl pf (mx - mn)) * 255)"
    and "fl pf (fl pf (fl pf (v - mn) / fl pf (mx - mn)) * 255) \<le> 255"
    by (simp_all add: q_def a_def b_def)
qed

lemma astype_uint8_fin:
  "0 \<le> x \<Longrightarrow> x \<le> 255 \<Longrightarrow> astype_uint8 pf (QFin x) = nat \<lfloor>x\<rfloor>"
  by (simp add: astype_uint8_def)

lemma arr_norm_float:
  assumes sub: "\<forall>a b. np_subtract pf a b = fl pf (a - b)"
    and mono: "\<forall>x y. x \<le> y \<longrightarrow> fl pf x \<le> fl pf y"
    and exact: "fl pf 0 = 0 \<and> fl pf 1 = 1 \<and> fl pf 255 = 255"
    and rng: "\<forall>v\<in>set vs. mn \<le> v \<and> v \<le> mx"
    and nz: "fl pf (mx - mn) \<noteq> 0"
  shows "arr_norm pf mn mx vs =
     map (\<lambda>v. nat \<lfloor>fl pf (fl pf (fl pf (v - mn) / fl pf (mx - mn)) * 255)\<rfloor>) vs"
  unfolding arr_norm_def
proof (rule map_cong [OF refl])
  fix v assume "v \<in> set vs"
  with rng have v: "mn \<le> v" "v \<le> mx" by auto
  have q: "np_multiply pf
             (np_true_divide pf (np_subtract pf v mn) (np_subtract pf mx mn)) 255
           = QFin (fl pf (fl pf (fl pf (v - mn) / fl pf (mx - mn)) * 255))"
    using nz by (simp add: np_true_divide_def sub)
  show "astype_uint8 pf
          (np_multiply pf
             (np_true_divide pf (np_subtract pf v mn) (np_subtract pf mx mn)) 255)
        = nat \<lfloor>fl pf (fl pf (fl pf (v - mn) / fl pf (mx - mn)) * 255)\<rfloor>"
    unfolding q using mono exact v nz by (intro astype_uint8_fin scaled_float_bounds)
qed

lemma floor_le_255:
  fixes x :: real
  assumes "x \<le> 255"
  shows "nat \<lfloor>x\<rfloor> \<le> 255"
proof -
  from assms have "\<lfloor>x\<rfloor> \<le> \<lfloor>255::real\<rfloor>" by (rule floor_mono)
  also have "\<lfloor>255::real\<rfloor> = 255" by simp
  finally show ?thesis by linarith
qed

text \<open>
  Claim C5, as amended. On a float band (the subtraction is the rounded difference) whose
  rounding \<open>fl\<close> is monotone and exact at 0, 1 and 255, as rounding to the nearest float
  is, for a raster with two distinct valid samples whose range does not round to zero:
  every scaled value of \<open>arr_norm\<close>, the list handed to OpenCV, is the value of
  \<open>(v - min) / (max - min) * 255\<close> as the float arithmetic evaluates it, each operation
  rounded, with its fraction discarded (the floor, not the nearest integer), and lies in
  0..255.
\<close>

theorem rescaling_truncates:
  assumes sub: "\<forall>a b. np_subtract pf a b = fl pf (a - b)"
    and mono: "\<forall>x y. x \<le> y \<longrightarrow> fl pf x \<le> fl pf y"
    and exact: "fl pf 0 = 0 \<and> fl pf 1 = 1 \<and> fl pf 255 = 255"
    and two: "2 \<le> card (set (arr_valid (ReadAsArray ds) (NoDataValue ds)))"
    and nz: "fl pf (Max (set (arr_valid (ReadAsArray ds) (NoDataValue ds))) -
                    Min (set (arr_valid (ReadAsArray ds) (NoDataValue ds)))) \<noteq> 0"
  shows "\<exists>mn mx st'.
     mn = Min (set (arr_valid (ReadAsArray ds) (NoDataValue ds))) \<and>
     mx = Max (set (arr_valid (ReadAsArray ds) (NoDataValue ds))) \<and>
     arr_norm pf mn mx (arr_valid (ReadAsArray ds) (NoDataValue ds)) =
       map (\<lambda>v. nat \<lfloor>fl pf (fl pf (fl pf (v - mn) / fl pf (mx - mn)) * 255)\<rfloor>)
         (arr_valid (ReadAsArray ds) (NoDataValue ds)) \<and>
     list_all (\<lambda>k. k \<le> 255)
       (arr_norm pf mn mx (arr_valid (ReadAsArray ds) (NoDataValue ds))) \<and>
     OtsuWaterMask_processAlgorithm pf ds p st = (Inr p, st') \<and>
     info st' = info st @
       [mn + cv2_otsu pf
               (map (\<lambda>v. nat \<lfloor>fl pf (fl pf (fl pf (v - mn) / fl pf (mx - mn)) * 255)\<rfloor>)
                  (arr_valid (ReadAsArray ds) (NoDataValue ds))) / 255 * (mx - mn)]"
proof -
  let ?vs = "arr_valid (ReadAsArray ds) (NoDataValue ds)"
  let ?mn = "Min (set ?vs)" and ?mx = "Max (set ?vs)"
  let ?s = "\<lambda>v. fl pf (fl pf (fl pf (v - ?mn) / fl pf (?mx - ?mn)) * 255)"
  have ne: "?vs \<noteq> []" using two by auto
  have rng: "\<forall>v\<in>set ?vs. ?mn \<le> v \<and> v \<le> ?mx" by simp
  have norm: "arr_norm pf ?mn ?mx ?vs = map (\<lambda>v. nat \<lfloor>?s v\<rfloor>) ?vs"
    using sub mono exact rng nz by (rule arr_norm_float)
  have le: "list_all (\<lambda>k. k \<le> 255) (arr_norm pf ?mn ?mx ?vs)"
    unfolding norm list_all_iff
  proof
    fix k assume "k \<in> set (map (\<lambda>v. nat \<lfloor>?s v\<rfloor>) ?vs)"
    then obtain v where v: "v \<in> set ?vs" and k: "k = nat \<lfloor>?s v\<rfloor>" by auto
    from v have "?mn \<le> v" "v \<le> ?mx" by simp_all
    with mono exact nz have "?s v \<le> 255" by (intro scaled_float_bounds(2))
    then show "k \<le> 255" unfolding k by (rule floor_le_255)
  qed
  have run: "OtsuWaterMask_processAlgorithm pf ds p st
               = (Inr p, snd (OtsuWaterMask_processAlgorithm pf ds p st))"
    using OtsuWaterMask_processAlgorithm_success [OF ne, of pf p st] by simp
  have inf: "info (snd (OtsuWaterMask_processAlgorithm pf ds p st)) = info st @
       [?mn + cv2_otsu pf (map (\<lambda>v. nat \<lfloor>?s v\<rfloor>) ?vs) / 255 * (?mx - ?mn)]"
    using OtsuWaterMask_processAlgorithm_success [OF ne, of pf p st]
    by (simp add: otsu_value_def Let_def norm)
  show ?thesis using norm le run inf by blast
qed

lemma scaling_raster_valid:
  "arr_valid (ReadAsArray scaling_raster) (NoDataValue scaling_raster) = [0, 1, 4]"
  by (simp add: scaling_raster_def arr_valid_def valid_mask_def)

lemma scaling_raster_norm: "arr_norm reference_platform 0 4 [0, 1, 4] = [0, 63, 255]"
  by (simp add: arr_norm_def np_true_divide_def astype_uint8_def reference_platform_def
      binary64_0 binary64_1 binary64_4 binary64_255 binary64_quarter binary64_255_quarters)

text \<open>
  Claim C5 as stated fails at \<open>scaling_raster\<close>: the sample 1 between the minimum 0 and the
  maximum 4 scales to 63.75, every operation being exact in binary64, which the code casts
  to 63 and the spec's rounding gives 64.
\<close>

theorem rescaling_rounds_counterexample:
  "arr_valid (ReadAsArray scaling_raster) (NoDataValue scaling_raster) = [0, 1, 4] \<and>
   np_min [0, 1, 4] = Inr 0 \<and> np_max [0, 1, 4] = Inr 4 \<and>
   arr_norm reference_platform 0 4 [0, 1, 4] = [0, 63, 255] \<and>
   map (spec_scaled 0 4) [0, 1, 4] = [0, 64, 255]"
  by (simp add: scaling_raster_valid scaling_raster_norm spec_scaled_def round_def)

text \<open>The binary64 roundings that the rescaling of \<open>float_raster\<close> goes through.\<close>

lemma binary64_eval:
  assumes "2 powr of_int E \<le> \<bar>x\<bar>" and "\<bar>x\<bar> < 2 powr (of_int E + 1)" and "- 1022 \<le> E"
  shows "binary64 x =
     of_int (round_to_even (x / 2 powr of_int (E - 52))) * 2 powr of_int (E - 52)"
proof -
  have pos: "0 < \<bar>x\<bar>"
  proof -
    have "(0::real) < 2 powr of_int E" by simp
    with assms(1) show ?thesis by linarith
  qed
  then have x: "x \<noteq> 0" by auto
  have "\<lfloor>log 2 \<bar>x\<bar>\<rfloor> = E"
    using floor_log_eq_powr_iff [of "\<bar>x\<bar>" 2 E] pos assms(1,2) by simp
  moreover have "max (E - 52) (- 1074) = E - 52" using assms(3) by simp
  ultimately show ?thesis using x by (simp add: binary64_def Let_def)
qed

lemma float_raster_min:
  "binary64 (- 3 / 10) = - (5404319552844595 / 18014398509481984)"
  using binary64_eval [of "- 2" "- 3 / 10"]
  by (simp add: powr_neg_numeral round_to_even_def Let_def)

lemma float_raster_max:
  "binary64 (12 / 10) = 5404319552844595 / 4503599627370496"
  using binary64_eval [of 0 "12 / 10"]
  by (simp add: powr_neg_numeral round_to_even_def Let_def)

lemma float_sub_mid:
  "binary64 (5404319552844595 / 18014398509481984) = 5404319552844595 / 18014398509481984"
  by (rule binary64_exact, rule doublesI [of 5404319552844595 "- 54"])
     (simp_all add: powr_neg_numeral)

lemma float_sub_range:
  "binary64 (27021597764222975 / 18014398509481984) = 3 / 2"
  using binary64_eval [of 0 "27021597764222975 / 18014398509481984"]
  by (simp add: powr_neg_numeral round_to_even_def Let_def)

lemma float_div_mid:
  "binary64 (5404319552844595 / 27021597764222976) = 7205759403792793 / 36028797018963968"
  using binary64_eval [of "- 3" "5404319552844595 / 27021597764222976"]
  by (simp add: powr_neg_numeral round_to_even_def Let_def)

lemma float_mul_mid:
  "binary64 (1837468647967162215 / 36028797018963968) = 7177611906121727 / 140737488355328"
  using binary64_eval [of 5 "1837468647967162215 / 36028797018963968"]
  by (simp add: powr_neg_numeral round_to_even_def Let_def)

lemma float_raster_valid:
  "arr_valid (ReadAsArray float_raster) (NoDataValue float_raster) =
     [- (5404319552844595 / 18014398509481984), 0, 5404319552844595 / 4503599627370496]"
  unfolding float_raster_def float_raster_min float_raster_max
  by (simp add: arr_valid_def valid_mask_def)

lemma float_raster_norm:
  "arr_norm reference_platform (- (5404319552844595 / 18014398509481984))
     (5404319552844595 / 4503599627370496)
     [- (5404319552844595 / 18014398509481984), 0, 5404319552844595 / 4503599627370496]
   = [0, 50, 255]"
  by (simp add: arr_norm_def np_true_divide_def astype_uint8_def reference_platform_def
      binary64_0 binary64_1 binary64_255 float_sub_mid float_sub_range float_div_mid
      float_mul_mid)

text \<open>
  Claim C5, as amended, at \<open>float_raster\<close>, where the rounding shows: the sample 0 between
  the doubles nearest to -0.3 and 1.2 scales to 51 in exact arithmetic and to
  50.99999999999999 in binary64, which the cast turns into 50.
\<close>

theorem rescaling_truncates_witness:
  "arr_valid (ReadAsArray float_raster) (NoDataValue float_raster) =
     [- (5404319552844595 / 18014398509481984), 0, 5404319552844595 / 4503599627370496] \<and>
   arr_norm reference_platform (- (5404319552844595 / 18014398509481984))
     (5404319552844595 / 4503599627370496)
     [- (5404319552844595 / 18014398509481984), 0, 5404319552844595 / 4503599627370496]
     = [0, 50, 255] \<and>
   (\<exists>mn mx st'.
     mn = Min (set (arr_valid (ReadAsArray float_raster) (NoDataValue float_raster))) \<and>
     mx = Max (set (arr_valid (ReadAsArray float_raster) (NoDataValue float_raster))) \<and>
     arr_norm reference_platform mn mx
         (arr_valid (ReadAsArray float_raster) (NoDataValue float_raster)) =
       map (\<lambda>v. nat \<lfloor>fl reference_platform
                        (fl reference_platform
                           (fl reference_platform (v - mn) / fl reference_platform (mx - mn))
                         * 255)\<rfloor>)
         (arr_valid (ReadAsArray float_raster) (NoDataValue float_raster)) \<and>
     list_all (\<lambda>k. k \<le> 255)
       (arr_norm reference_platform mn mx
          (arr_valid (ReadAsArray float_raster) (NoDataValue float_raster))) \<and>
     OtsuWaterMask_processAlgorithm reference_platform float_raster ''mask.tif'' empty_state
       = (Inr ''mask.tif'', st') \<and>
     info st' = info empty_state @
       [mn + cv2_otsu reference_platform
               (map (\<lambda>v. nat \<lfloor>fl reference_platform
                                (fl reference_platform
                                   (fl reference_platform (v - mn) /
                                    fl reference_platform (mx - mn))
                                 * 255)\<rfloor>)
                  (arr_valid (ReadAsArray float_raster) (NoDataValue float_raster)))
             / 255 * (mx - mn)])"
proof -
  have sub: "\<forall>a b. np_subtract reference_platform a b = fl reference_platform (a - b)"
    by (simp add: reference_platform_def)
  have mono: "\<forall>x y. x \<le> y \<longrightarrow> fl reference_platform x \<le> fl reference_platform y"
    by (simp add: reference_platform_def binary64_mono)
  have exact: "fl reference_platform 0 = 0 \<and> fl reference_platform 1 = 1 \<and>
               fl reference_platform 255 = 255"
    by (simp add: reference_platform_def binary64_0 binary64_1 binary64_255)
  have two: "2 \<le> card (set (arr_valid (ReadAsArray float_raster) (NoDataValue float_raster)))"
    by (simp add: float_raster_valid)
  have nz: "fl reference_platform
              (Max (set (arr_valid (ReadAsArray float_raster) (NoDataValue float_raster))) -
               Min (set (arr_valid (ReadAsArray float_raster) (NoDataValue float_raster))))
            \<noteq> 0"
    by (simp add: float_raster_valid reference_platform_def float_sub_range)
  show ?thesis
    using float_raster_valid float_raster_norm
      rescaling_truncates [OF sub mono exact two nz, of "''mask.tif''" empty_state]
    by (intro conjI) assumption+
qed








section \<open>Properties of the object classifier\<close>

lemma distance_nonneg: "0 \<le> distance p q"
  by (simp add: distance_def)

lemma distance_horizontal: "distance (x1, y) (x2, y) = \<bar>x1 - x2\<bar>"
  by (simp add: distance_def)

lemma distance_vertical: "distance (x, y1) (x, y2) = \<bar>y1 - y2\<bar>"
  by (simp add: distance_def)

lemma upt_0_4: "[0..<4] = [0, 1, 2, 3]"
  by (simp add: upt_rec)

lemma side_lengths_ok:
  "5 \<le> length rc \<Longrightarrow>
   side_lengths rc =
     Inr [distance (rc ! 0) (rc ! 1), distance (rc ! 1) (rc ! 2),
          distance (rc ! 2) (rc ! 3), distance (rc ! 3) (rc ! 4)]"
  by (simp add: side_lengths_def upt_0_4 eval_nat_numeral)

lemma side_lengths_Inr:
  assumes "side_lengths rc = Inr lens"
  shows "lens \<noteq> [] \<and> (\<forall>d\<in>set lens. 0 \<le> d)"
  using assms by (auto simp: side_lengths_def distance_nonneg split: if_splits)

lemma elongation_main_axis_fallback:
  "orientedMinimumBoundingBox g = None \<or>
   (\<exists>r. orientedMinimumBoundingBox g = Some r \<and> \<not> isGeosValid r) \<Longrightarrow>
   elongation_main_axis g = Inr (1, 0)"
  by (auto simp: elongation_main_axis_def)

lemma elongation_main_axis_rect:
  assumes "orientedMinimumBoundingBox g = Some r" and "isGeosValid r"
    and "asPolygon r = rc # others" and "5 \<le> length rc"
  shows "elongation_main_axis g =
     Inr (let lens = [distance (rc ! 0) (rc ! 1), distance (rc ! 1) (rc ! 2),
                       distance (rc ! 2) (rc ! 3), distance (rc ! 3) (rc ! 4)];
              width = Min (set lens); height = Max (set lens)
          in (if 0 < width then height / width else 1, height))"
  using assms by (simp add: elongation_main_axis_def side_lengths_ok Let_def)

lemma ratio_ge_one:
  fixes lens :: "real list"
  assumes "lens \<noteq> []" and "0 < Min (set lens)"
  shows "1 \<le> Max (set lens) / Min (set lens)"
proof -
  have "Min (set lens) \<le> Max (set lens)" using assms(1) by (simp add: Min_le_iff)
  with assms(2) show ?thesis by (simp add: le_divide_eq)
qed

lemma elongation_main_axis_range:
  assumes "elongation_main_axis g = Inr (e, m)"
  shows "1 \<le> e \<and> 0 \<le> m"
proof (cases "orientedMinimumBoundingBox g")
  case None
  with assms show ?thesis by (simp add: elongation_main_axis_def)
next
  case (Some r)
  show ?thesis
  proof (cases "isGeosValid r")
    case False
    with Some assms show ?thesis by (simp add: elongation_main_axis_def)
  next
    case True
    with Some assms obtain rc others lens where
      lens: "side_lengths rc = Inr lens" and
      e: "e = (if 0 < Min (set lens) then Max (set lens) / Min (set lens) else 1)" and
      m: "m = Max (set lens)"
      by (auto simp: elongation_main_axis_def Let_def split: list.splits sum.splits)
    from side_lengths_Inr [OF lens] have ne: "lens \<noteq> []" and pos: "\<forall>d\<in>set lens. 0 \<le> d"
      by simp_all
    have "1 \<le> e" unfolding e using ne by (simp add: ratio_ge_one)
    moreover have "0 \<le> m"
    proof -
      from ne obtain d where d: "d \<in> set lens" by (cases lens) auto
      with pos have "0 \<le> d" by blast
      also have "d \<le> Max (set lens)" using d by simp
      finally show ?thesis unfolding m .
    qed
    ultimately show ?thesis ..
  qed
qed

lemma rect_well_formed_Inr:
  assumes "rect_well_formed g"
  shows "\<exists>e m. elongation_main_axis g = Inr (e, m)"
  using assms
  by (auto simp: rect_well_formed_def elongation_main_axis_def side_lengths_def Let_def
      split: option.splits list.splits if_splits)

lemma process_feature_Inr:
  assumes "process_feature f = Inr new_f"
  shows "\<exists>e m. elongation_main_axis (geometry f) = Inr (e, m) \<and>
     new_f = \<lparr>geometry = geometry f,
              attributes = attributes f @
                [VDouble (geom_area (geometry f)), VDouble (geom_length (geometry f)),
                 VDouble e, VDouble m, VClass (classify (geom_area (geometry f)) e m)]\<rparr>"
  using assms by (auto simp: process_feature_def Let_def split: sum.splits)

lemma process_feature_well_formed:
  assumes "rect_well_formed (geometry f)"
  shows "\<exists>new_f. process_feature f = Inr new_f"
  using rect_well_formed_Inr [OF assms] by (auto simp: process_feature_def Let_def)

lemma classify_first_match: "classify ar e m = first_match spec_rules Vodoyom (ar, e, m)"
  by (simp add: classify_def spec_rules_def)

text \<open>
  Claim C2. The label of every feature the loop builds is the first match of the spec's
  ordered rule list on its area, elongation and main axis, the generic water body when no
  rule matches: \<open>classify\<close> is that first-match evaluation and the chain of the claim. An
  area of 5000 with elongation 1 is a pond, a main axis of 10000 with elongation 5 is a
  river and an area of 600000 with elongation 1 is a lake, whatever the feature left open.
\<close>

theorem classification_rule:
  "(process_feature f = Inr new_f \<longrightarrow>
      (\<exists>elongation main_axis.
         elongation_main_axis (geometry f) = Inr (elongation, main_axis) \<and>
         last (attributes new_f) =
           VClass (first_match spec_rules Vodoyom
                     (geom_area (geometry f), elongation, main_axis)))) \<and>
   classify ar e m = first_match spec_rules Vodoyom (ar, e, m) \<and>
   classify ar e m =
     (if m > 8000 \<and> e > 3 then Reka
      else if ar > 500000 \<and> e < 2 then Ozero
      else if ar < 20000 \<and> e > 2 then Erik
      else if ar < 10000 then Prud
      else Vodoyom) \<and>
   classify 5000 1 m1 = Prud \<and>
   classify ar2 5 10000 = Reka \<and>
   classify 600000 1 m3 = Ozero"
proof (intro conjI impI)
  assume "process_feature f = Inr new_f"
  from process_feature_Inr [OF this] show
    "\<exists>elongation main_axis.
         elongation_main_axis (geometry f) = Inr (elongation, main_axis) \<and>
         last (attributes new_f) =
           VClass (first_match spec_rules Vodoyom
                     (geom_area (geometry f), elongation, main_axis))"
    by (auto simp: classify_first_match)
qed (simp_all add: classify_first_match [symmetric], simp_all add: classify_def)

lemma river_features: "elongation_main_axis (geometry river) = Inr (5, 10000)"
  using elongation_main_axis_rect [of "geometry river"
      "\<lparr>isGeosValid = True,
        asPolygon = [[(0, 0), (10000, 0), (10000, 2000), (0, 2000), (0, 0)]]\<rparr>"
      "[(0, 0), (10000, 0), (10000, 2000), (0, 2000), (0, 0)]" "[]"]
  by (simp add: river_def distance_horizontal distance_vertical)

lemma river_classified:
  "process_feature river =
     Inr \<lparr>geometry = geometry river,
          attributes = [VInt 1, VDouble 20000000, VDouble 24000, VDouble 5, VDouble 10000,
                        VClass Reka]\<rparr>"
  by (simp add: process_feature_def river_features Let_def)
     (simp add: river_def classify_def)

text \<open>Claim C2 at \<open>river\<close>: main axis 10000, elongation 5, labelled a river.\<close>

theorem classification_rule_witness:
  "process_feature river =
     Inr \<lparr>geometry = geometry river,
          attributes = [VInt 1, VDouble 20000000, VDouble 24000, VDouble 5, VDouble 10000,
                        VClass Reka]\<rparr> \<and>
   (\<exists>elongation main_axis.
         elongation_main_axis (geometry river) = Inr (elongation, main_axis) \<and>
         VClass Reka =
           VClass (first_match spec_rules Vodoyom
                     (geom_area (geometry river), elongation, main_axis)))"
  using river_classified
    classification_rule [of river "\<lparr>geometry = geometry river,
          attributes = [VInt 1, VDouble 20000000, VDouble 24000, VDouble 5, VDouble 10000,
                        VClass Reka]\<rparr>"]
  by simp

lemma loop_sink_sources:
  "new_f \<in> set (sink (snd (classify_loop canceled total_count (enumerate n fs) st))) \<Longrightarrow>
   new_f \<in> set (sink st) \<or> (\<exists>f\<in>set fs. process_feature f = Inr new_f)"
proof (induction fs arbitrary: n st)
  case Nil
  then show ?case by simp
next
  case (Cons f fs)
  show ?case
  proof (cases "canceled (polls st)")
    case True
    with Cons.prems show ?thesis by (simp add: Let_def)
  next
    case nc: False
    show ?thesis
    proof (cases "process_feature f")
      case (Inl e)
      with nc Cons.prems show ?thesis by (simp add: Let_def)
    next
      case (Inr nf)
      show ?thesis
      proof (cases "total_count = 0")
        case True
        with nc Inr Cons.prems show ?thesis by (auto simp: Let_def)
      next
        case False
        let ?st' = "st\<lparr>polls := polls st + 1, sink := sink st @ [nf],
                       progress := progress st @ [py_int (100 * real n / real_of_int total_count)]\<rparr>"
        from nc Inr False Cons.prems
        have "new_f \<in> set (sink (snd (classify_loop canceled total_count (enumerate (Suc n) fs) ?st')))"
          by (simp add: Let_def)
        from Cons.IH [OF this] Inr show ?thesis by auto
      qed
    qed
  qed
qed

lemma loop_run:
  assumes "\<forall>f\<in>set fs. \<exists>nf. process_feature f = Inr nf"
    and "fs \<noteq> [] \<longrightarrow> total_count \<noteq> 0"
  shows "\<exists>m\<le>length fs.
     fst (classify_loop canceled total_count (enumerate n fs) st) = None \<and>
     sink (snd (classify_loop canceled total_count (enumerate n fs) st))
       = sink st @ map (projr \<circ> process_feature) (take m fs) \<and>
     polls (snd (classify_loop canceled total_count (enumerate n fs) st))
       = polls st + (if m < length fs then m + 1 else m) \<and>
     (\<forall>j<m. \<not> canceled (polls st + j)) \<and>
     (m < length fs \<longrightarrow> canceled (polls st + m))"
  using assms
proof (induction fs arbitrary: n st)
  case Nil
  show ?case by (rule exI [of _ 0]) simp
next
  case (Cons f fs)
  from Cons.prems have tc: "total_count \<noteq> 0" by simp
  from Cons.prems obtain nf where nf: "process_feature f = Inr nf" by auto
  show ?case
  proof (cases "canceled (polls st)")
    case True
    show ?thesis by (rule exI [of _ 0]) (simp add: True Let_def)
  next
    case nc: False
    let ?st' = "st\<lparr>polls := polls st + 1, sink := sink st @ [nf],
                   progress := progress st @ [py_int (100 * real n / real_of_int total_count)]\<rparr>"
    have step: "classify_loop canceled total_count (enumerate n (f # fs)) st
                  = classify_loop canceled total_count (enumerate (Suc n) fs) ?st'"
      using nc nf tc by (simp add: Let_def)
    have "\<forall>f\<in>set fs. \<exists>nf. process_feature f = Inr nf" using Cons.prems by simp
    moreover have "fs \<noteq> [] \<longrightarrow> total_count \<noteq> 0" using tc by simp
    ultimately obtain m where m: "m \<le> length fs"
      "fst (classify_loop canceled total_count (enumerate (Suc n) fs) ?st') = None"
      "sink (snd (classify_loop canceled total_count (enumerate (Suc n) fs) ?st'))
         = sink ?st' @ map (projr \<circ> process_feature) (take m fs)"
      "polls (snd (classify_loop canceled total_count (enumerate (Suc n) fs) ?st'))
         = polls ?st' + (if m < length fs then m + 1 else m)"
      "\<forall>j<m. \<not> canceled (polls ?st' + j)"
      "m < length fs \<longrightarrow> canceled (polls ?st' + m)"
      using Cons.IH [of "Suc n" ?st'] by blast
    have no: "\<forall>j<Suc m. \<not> canceled (polls st + j)"
    proof (intro allI impI)
      fix j assume "j < Suc m"
      show "\<not> canceled (polls st + j)"
      proof (cases j)
        case 0
        with nc show ?thesis by simp
      next
        case (Suc i)
        with \<open>j < Suc m\<close> have "i < m" by simp
        with m(5) have "\<not> canceled (polls ?st' + i)" by blast
        with Suc show ?thesis by simp
      qed
    qed
    show ?thesis
      apply (rule exI [of _ "Suc m"])
      unfolding step
      using m no nf by simp
  qed
qed




lemma pond_classified:
  "process_feature pond =
     Inr \<lparr>geometry = geometry pond,
          attributes = [VInt 1, VDouble 5000, VDouble 300, VDouble 1, VDouble 0, VClass Prud]\<rparr>"
  by (simp add: process_feature_def elongation_main_axis_def pond_def classify_def Let_def)


lemma run_eq:
  "WaterObjectClassification_processAlgorithm canceled vectorized =
   (fst (classify_loop canceled (int (length (features (extractbyattribute vectorized))))
           (enumerate 0 (features (extractbyattribute vectorized)))
           \<lparr>sink = [], progress = [], polls = 0\<rparr>),
    field_names vectorized @
      [''area_m2'', ''perimeter_m'', ''elongation'', ''main_axis'', ''class''],
    snd (classify_loop canceled (int (length (features (extractbyattribute vectorized))))
           (enumerate 0 (features (extractbyattribute vectorized)))
           \<lparr>sink = [], progress = [], polls = 0\<rparr>))"
  by (simp add: WaterObjectClassification_processAlgorithm_def Let_def extractbyattribute_def
      split: prod.splits)

lemma features_extractbyattribute:
  "features (extractbyattribute vectorized) =
     filter (\<lambda>f. attribute vectorized f ''DN'' = Some (VInt 1)) (features vectorized)"
  by (simp add: extractbyattribute_def)

lemma run_well_formed:
  assumes "\<forall>f\<in>set (features (extractbyattribute vectorized)). rect_well_formed (geometry f)"
  shows "\<exists>m\<le>length (features (extractbyattribute vectorized)).
     fst (WaterObjectClassification_processAlgorithm canceled vectorized) = None \<and>
     sink (snd (snd (WaterObjectClassification_processAlgorithm canceled vectorized)))
       = map (projr \<circ> process_feature) (take m (features (extractbyattribute vectorized))) \<and>
     polls (snd (snd (WaterObjectClassification_processAlgorithm canceled vectorized)))
       = (if m < length (features (extractbyattribute vectorized)) then m + 1 else m) \<and>
     (\<forall>j<m. \<not> canceled j) \<and>
     (m < length (features (extractbyattribute vectorized)) \<longrightarrow> canceled m)"
proof -
  let ?ow = "features (extractbyattribute vectorized)"
  have ok: "\<forall>f\<in>set ?ow. \<exists>nf. process_feature f = Inr nf"
    using assms process_feature_well_formed by blast
  have tc: "?ow \<noteq> [] \<longrightarrow> int (length ?ow) \<noteq> 0" by simp
  from loop_run [OF ok tc, of canceled 0 "\<lparr>sink = [], progress = [], polls = 0\<rparr>"]
  show ?thesis unfolding run_eq by simp
qed

lemma class_counts:
  assumes "\<forall>x\<in>set xs. \<exists>c. last (attributes x) = VClass c"
  shows "(\<Sum>c\<leftarrow>[Reka, Ozero, Erik, Prud, Vodoyom].
            length (filter (\<lambda>x. last (attributes x) = VClass c) xs)) = length xs"
  using assms
proof (induction xs)
  case Nil
  show ?case by simp
next
  case (Cons x xs)
  then obtain c where c: "last (attributes x) = VClass c" by auto
  from Cons have "(\<Sum>c\<leftarrow>[Reka, Ozero, Erik, Prud, Vodoyom].
            length (filter (\<lambda>x. last (attributes x) = VClass c) xs)) = length xs" by simp
  then show ?case using c by (cases c) simp_all
qed

lemma emitted_shape:
  assumes "process_feature f = Inr new_f"
  shows "geometry new_f = geometry f \<and>
     take (length (attributes f)) (attributes new_f) = attributes f \<and>
     length (attributes new_f) = length (attributes f) + 5 \<and>
     (\<exists>c. last (attributes new_f) = VClass c)"
  using process_feature_Inr [OF assms] by auto

text \<open>
  Claim C7. When no call of \<open>isCanceled()\<close> answers True and the bounding rectangles are
  well formed, the algorithm raises nothing, and the sink holds one feature for each
  polygon with DN = 1, in their order: the counts over the five labels add up to the
  number of those polygons, and each feature has its polygon's geometry and its polygon's
  attributes followed by the five derived ones.
\<close>

theorem all_water_polygons_classified:
  assumes "\<forall>k. \<not> canceled k"
    and "\<forall>f\<in>set (features (extractbyattribute vectorized)). rect_well_formed (geometry f)"
  shows "\<exists>flds st.
     WaterObjectClassification_processAlgorithm canceled vectorized = (None, flds, st) \<and>
     length (sink st) =
       length (filter (\<lambda>f. attribute vectorized f ''DN'' = Some (VInt 1)) (features vectorized)) \<and>
     (\<Sum>c\<leftarrow>[Reka, Ozero, Erik, Prud, Vodoyom].
         length (filter (\<lambda>new_f. last (attributes new_f) = VClass c) (sink st))) =
       length (filter (\<lambda>f. attribute vectorized f ''DN'' = Some (VInt 1)) (features vectorized)) \<and>
     list_all2
       (\<lambda>f new_f. process_feature f = Inr new_f \<and>
                  geometry new_f = geometry f \<and>
                  take (length (attributes f)) (attributes new_f) = attributes f \<and>
                  length (attributes new_f) = length (attributes f) + 5)
       (filter (\<lambda>f. attribute vectorized f ''DN'' = Some (VInt 1)) (features vectorized))
       (sink st)"
proof -
  let ?ow = "features (extractbyattribute vectorized)"
  let ?run = "WaterObjectClassification_processAlgorithm canceled vectorized"
  have ok: "\<forall>f\<in>set ?ow. \<exists>nf. process_feature f = Inr nf"
    using assms(2) process_feature_well_formed by blast
  from run_well_formed [OF assms(2), of canceled] obtain m where m: "m \<le> length ?ow"
    "fst ?run = None"
    "sink (snd (snd ?run)) = map (projr \<circ> process_feature) (take m ?ow)"
    "m < length ?ow \<longrightarrow> canceled m"
    by blast
  from m(1,4) assms(1) have "m = length ?ow" by (cases "m < length ?ow") auto
  with m(3) have snk: "sink (snd (snd ?run)) = map (projr \<circ> process_feature) ?ow" by simp
  have all2: "list_all2
       (\<lambda>f new_f. process_feature f = Inr new_f \<and>
                  geometry new_f = geometry f \<and>
                  take (length (attributes f)) (attributes new_f) = attributes f \<and>
                  length (attributes new_f) = length (attributes f) + 5)
       ?ow (sink (snd (snd ?run)))"
    unfolding snk list_all2_map2
  proof (rule list_all2_same [THEN iffD2], intro ballI)
    fix f assume "f \<in> set ?ow"
    with ok obtain nf where nf: "process_feature f = Inr nf" by blast
    with emitted_shape [OF nf]
    show "process_feature f = Inr ((projr \<circ> process_feature) f) \<and>
          geometry ((projr \<circ> process_feature) f) = geometry f \<and>
          take (length (attributes f)) (attributes ((projr \<circ> process_feature) f)) = attributes f \<and>
          length (attributes ((projr \<circ> process_feature) f)) = length (attributes f) + 5"
      by simp
  qed
  have len: "length (sink (snd (snd ?run))) = length ?ow" by (simp add: snk)
  have cls: "\<forall>x\<in>set (sink (snd (snd ?run))). \<exists>c. last (attributes x) = VClass c"
  proof
    fix x assume "x \<in> set (sink (snd (snd ?run)))"
    then obtain f where "f \<in> set ?ow" "x = projr (process_feature f)" unfolding snk by auto
    moreover with ok obtain nf where "process_feature f = Inr nf" by blast
    ultimately show "\<exists>c. last (attributes x) = VClass c" using emitted_shape [of f nf] by simp
  qed
  have cnt: "(\<Sum>c\<leftarrow>[Reka, Ozero, Erik, Prud, Vodoyom].
         length (filter (\<lambda>new_f. last (attributes new_f) = VClass c) (sink (snd (snd ?run)))))
       = length ?ow"
    using class_counts [OF cls] len by simp
  have run: "?run = (None, fst (snd ?run), snd (snd ?run))"
    using m(2) by (cases ?run) auto
  show ?thesis
    apply (rule exI [of _ "fst (snd ?run)"], rule exI [of _ "snd (snd ?run)"])
    using run len cnt all2 unfolding features_extractbyattribute
    by (intro conjI)
qed

text \<open>
  Claim C9. With well-formed bounding rectangles, the sink of any run is the first \<open>m\<close>
  features of the sink of the run that is never cancelled, each the whole feature built
  for the polygon at its position, where \<open>m\<close> is the first call of \<open>isCanceled()\<close> that
  answers True. When one of the calls that the loop makes answers True, that sink is a
  strict prefix of the full one, and the run has made one call more than it has added
  features: the calls are one per iteration, at its head. When none does (a signal after
  the last call is not seen), the sink is the full one.
\<close>

theorem cancellation_yields_prefix:
  assumes "\<forall>f\<in>set (features (extractbyattribute vectorized)). rect_well_formed (geometry f)"
  shows "\<exists>m flds st_c st_full.
     WaterObjectClassification_processAlgorithm canceled vectorized = (None, flds, st_c) \<and>
     WaterObjectClassification_processAlgorithm (\<lambda>j. False) vectorized = (None, flds, st_full) \<and>
     list_all2 (\<lambda>f new_f. process_feature f = Inr new_f)
       (features (extractbyattribute vectorized)) (sink st_full) \<and>
     polls st_full = length (sink st_full) \<and>
     m \<le> length (sink st_full) \<and> (\<forall>j<m. \<not> canceled j) \<and>
     sink st_c = take m (sink st_full) \<and>
     ((\<exists>k<length (features (extractbyattribute vectorized)). canceled k) \<longrightarrow>
        canceled m \<and> strict_prefix (sink st_c) (sink st_full) \<and>
        polls st_c = length (sink st_c) + 1) \<and>
     ((\<forall>k<length (features (extractbyattribute vectorized)). \<not> canceled k) \<longrightarrow>
        sink st_c = sink st_full \<and> polls st_c = length (sink st_c))"
proof -
  let ?ow = "features (extractbyattribute vectorized)"
  let ?c = "WaterObjectClassification_processAlgorithm canceled vectorized"
  let ?f = "WaterObjectClassification_processAlgorithm (\<lambda>j. False) vectorized"
  have ok: "\<forall>f\<in>set ?ow. \<exists>nf. process_feature f = Inr nf"
    using assms process_feature_well_formed by blast
  from run_well_formed [OF assms, of canceled] obtain m where m: "m \<le> length ?ow"
    "fst ?c = None"
    "sink (snd (snd ?c)) = map (projr \<circ> process_feature) (take m ?ow)"
    "polls (snd (snd ?c)) = (if m < length ?ow then m + 1 else m)"
    "\<forall>j<m. \<not> canceled j"
    "m < length ?ow \<longrightarrow> canceled m"
    by blast
  from run_well_formed [OF assms, of "\<lambda>j. False"] obtain n where n: "n \<le> length ?ow"
    "fst ?f = None"
    "sink (snd (snd ?f)) = map (projr \<circ> process_feature) (take n ?ow)"
    "polls (snd (snd ?f)) = (if n < length ?ow then n + 1 else n)"
    "n < length ?ow \<longrightarrow> False"
    by blast
  from n(1,5) have neq: "n = length ?ow" by (cases "n < length ?ow") auto
  have full: "sink (snd (snd ?f)) = map (projr \<circ> process_feature) ?ow" using n(3) neq by simp
  have part: "sink (snd (snd ?c)) = take m (sink (snd (snd ?f)))"
    unfolding full m(3) by (simp add: take_map)
  have lens: "length (sink (snd (snd ?c))) = m" "length (sink (snd (snd ?f))) = length ?ow"
    using m(1) by (simp_all add: m(3) full)
  have all2: "list_all2 (\<lambda>f new_f. process_feature f = Inr new_f) ?ow (sink (snd (snd ?f)))"
    unfolding full list_all2_map2
  proof (rule list_all2_same [THEN iffD2], intro ballI)
    fix f assume "f \<in> set ?ow"
    with ok obtain nf where "process_feature f = Inr nf" by blast
    then show "process_feature f = Inr ((projr \<circ> process_feature) f)" by simp
  qed
  have flds: "fst (snd ?c) = fst (snd ?f)" by (simp add: run_eq)
  have rc: "?c = (None, fst (snd ?c), snd (snd ?c))" using m(2) by (cases ?c) auto
  have rf: "?f = (None, fst (snd ?c), snd (snd ?f))" using n(2) flds by (cases ?f) auto
  have pf: "polls (snd (snd ?f)) = length (sink (snd (snd ?f)))"
    using n(4) neq lens by simp
  have ml: "m \<le> length (sink (snd (snd ?f)))" using m(1) lens(2) by simp
  have seen: "(\<exists>k<length ?ow. canceled k) \<longrightarrow>
        canceled m \<and> strict_prefix (sink (snd (snd ?c))) (sink (snd (snd ?f))) \<and>
        polls (snd (snd ?c)) = length (sink (snd (snd ?c))) + 1"
  proof
    assume "\<exists>k<length ?ow. canceled k"
    then obtain k where k: "k < length ?ow" "canceled k" by blast
    have "m \<le> k" using m(5) k(2) by (meson not_le)
    with k(1) have lt: "m < length ?ow" by simp
    have "strict_prefix (sink (snd (snd ?c))) (sink (snd (snd ?f)))"
    proof (rule strict_prefixI)
      show "prefix (sink (snd (snd ?c))) (sink (snd (snd ?f)))"
        unfolding part by (rule take_is_prefix)
      show "sink (snd (snd ?c)) \<noteq> sink (snd (snd ?f))"
        using lens lt by auto
    qed
    moreover have "polls (snd (snd ?c)) = length (sink (snd (snd ?c))) + 1"
      using m(4) lt lens by simp
    ultimately show "canceled m \<and> strict_prefix (sink (snd (snd ?c))) (sink (snd (snd ?f))) \<and>
        polls (snd (snd ?c)) = length (sink (snd (snd ?c))) + 1"
      using m(6) lt by blast
  qed
  have unseen: "(\<forall>k<length ?ow. \<not> canceled k) \<longrightarrow>
        sink (snd (snd ?c)) = sink (snd (snd ?f)) \<and>
        polls (snd (snd ?c)) = length (sink (snd (snd ?c)))"
  proof
    assume a: "\<forall>k<length ?ow. \<not> canceled k"
    with m(1,6) have meq: "m = length ?ow" by (cases "m < length ?ow") auto
    then show "sink (snd (snd ?c)) = sink (snd (snd ?f)) \<and>
        polls (snd (snd ?c)) = length (sink (snd (snd ?c)))"
      using m(3,4) full by simp
  qed
  show ?thesis
    apply (rule exI [of _ m], rule exI [of _ "fst (snd ?c)"],
           rule exI [of _ "snd (snd ?c)"], rule exI [of _ "snd (snd ?f)"])
    using rc rf all2 pf ml m(5) part seen unseen
    by (intro conjI) (assumption | blast)+
qed

text \<open>
  Claim C10. Every feature in the sink, of any run, comes from a polygon with DN = 1 and
  carries an elongation of at least 1 and a main axis of at least 0: exactly 1 and 0 on
  the fallback path, and on the normal path the ratio of the greatest to the least side
  length (1 when the least is not positive) and the greatest side length, the side
  lengths being distances and so not negative.
\<close>

theorem emitted_features_bounds:
  "\<forall>new_f \<in> set (sink (snd (snd (WaterObjectClassification_processAlgorithm canceled vectorized)))).
     \<exists>f elongation main_axis.
        f \<in> set (features (extractbyattribute vectorized)) \<and>
        elongation_main_axis (geometry f) = Inr (elongation, main_axis) \<and>
        geometry new_f = geometry f \<and>
        attributes new_f = attributes f @
          [VDouble (geom_area (geometry f)), VDouble (geom_length (geometry f)),
           VDouble elongation, VDouble main_axis,
           VClass (classify (geom_area (geometry f)) elongation main_axis)] \<and>
        1 \<le> elongation \<and> 0 \<le> main_axis \<and>
        ((orientedMinimumBoundingBox (geometry f) = None \<or>
          (\<exists>r. orientedMinimumBoundingBox (geometry f) = Some r \<and> \<not> isGeosValid r)) \<longrightarrow>
           elongation = 1 \<and> main_axis = 0) \<and>
        (\<forall>r rc others lens.
           orientedMinimumBoundingBox (geometry f) = Some r \<and> isGeosValid r \<and>
           asPolygon r = rc # others \<and> side_lengths rc = Inr lens \<longrightarrow>
           (\<forall>d\<in>set lens. 0 \<le> d) \<and>
           elongation = (if 0 < Min (set lens) then Max (set lens) / Min (set lens) else 1) \<and>
           main_axis = Max (set lens))"
proof
  fix new_f
  assume "new_f \<in> set (sink (snd (snd (WaterObjectClassification_processAlgorithm canceled vectorized))))"
  then have "new_f \<in> set (sink (snd (classify_loop canceled
                 (int (length (features (extractbyattribute vectorized))))
                 (enumerate 0 (features (extractbyattribute vectorized)))
                 \<lparr>sink = [], progress = [], polls = 0\<rparr>)))"
    by (simp add: run_eq)
  from loop_sink_sources [OF this] obtain f where
    f: "f \<in> set (features (extractbyattribute vectorized))" and pf: "process_feature f = Inr new_f"
    by auto
  from process_feature_Inr [OF pf] obtain e m where
    em: "elongation_main_axis (geometry f) = Inr (e, m)" and
    nf: "new_f = \<lparr>geometry = geometry f,
              attributes = attributes f @
                [VDouble (geom_area (geometry f)), VDouble (geom_length (geometry f)),
                 VDouble e, VDouble m, VClass (classify (geom_area (geometry f)) e m)]\<rparr>"
    by blast
  have rng: "1 \<le> e \<and> 0 \<le> m" using em by (rule elongation_main_axis_range)
  have fb: "(orientedMinimumBoundingBox (geometry f) = None \<or>
          (\<exists>r. orientedMinimumBoundingBox (geometry f) = Some r \<and> \<not> isGeosValid r)) \<longrightarrow>
           e = 1 \<and> m = 0"
    using em elongation_main_axis_fallback [of "geometry f"] by auto
  have nm: "\<forall>r rc others lens.
           orientedMinimumBoundingBox (geometry f) = Some r \<and> isGeosValid r \<and>
           asPolygon r = rc # others \<and> side_lengths rc = Inr lens \<longrightarrow>
           (\<forall>d\<in>set lens. 0 \<le> d) \<and>
           e = (if 0 < Min (set lens) then Max (set lens) / Min (set lens) else 1) \<and>
           m = Max (set lens)"
  proof (intro allI impI)
    fix r rc others lens
    assume a: "orientedMinimumBoundingBox (geometry f) = Some r \<and> isGeosValid r \<and>
           asPolygon r = rc # others \<and> side_lengths rc = Inr lens"
    then have "\<forall>d\<in>set lens. 0 \<le> d" using side_lengths_Inr by blast
    moreover from a em
    have "e = (if 0 < Min (set lens) then Max (set lens) / Min (set lens) else 1) \<and>
          m = Max (set lens)"
      by (simp add: elongation_main_axis_def Let_def)
    ultimately show "(\<forall>d\<in>set lens. 0 \<le> d) \<and>
           e = (if 0 < Min (set lens) then Max (set lens) / Min (set lens) else 1) \<and>
           m = Max (set lens)" by blast
  qed
  show "\<exists>f elongation main_axis.
        f \<in> set (features (extractbyattribute vectorized)) \<and>
        elongation_main_axis (geometry f) = Inr (elongation, main_axis) \<and>
        geometry new_f = geometry f \<and>
        attributes new_f = attributes f @
          [VDouble (geom_area (geometry f)), VDouble (geom_length (geometry f)),
           VDouble elongation, VDouble main_axis,
           VClass (classify (geom_area (geometry f)) elongation main_axis)] \<and>
        1 \<le> elongation \<and> 0 \<le> main_axis \<and>
        ((orientedMinimumBoundingBox (geometry f) = None \<or>
          (\<exists>r. orientedMinimumBoundingBox (geometry f) = Some r \<and> \<not> isGeosValid r)) \<longrightarrow>
           elongation = 1 \<and> main_axis = 0) \<and>
        (\<forall>r rc others lens.
           orientedMinimumBoundingBox (geometry f) = Some r \<and> isGeosValid r \<and>
           asPolygon r = rc # others \<and> side_lengths rc = Inr lens \<longrightarrow>
           (\<forall>d\<in>set lens. 0 \<le> d) \<and>
           elongation = (if 0 < Min (set lens) then Max (set lens) / Min (set lens) else 1) \<and>
           main_axis = Max (set lens))"
    apply (rule exI [of _ f], rule exI [of _ e], rule exI [of _ m])
    using f em rng fb nm by (simp add: nf)
qed

lemma polygonized_water: "features (extractbyattribute polygonized) = [river, pond]"
  by (simp add: extractbyattribute_def polygonized_def attribute_def river_def pond_def
      background_def)

lemma polygonized_well_formed:
  "\<forall>f\<in>set (features (extractbyattribute polygonized)). rect_well_formed (geometry f)"
  by (simp add: polygonized_water) (simp add: rect_well_formed_def river_def pond_def)

lemma polygonized_full_run:
  "fst (WaterObjectClassification_processAlgorithm (\<lambda>k. False) polygonized) = None \<and>
   sink (snd (snd (WaterObjectClassification_processAlgorithm (\<lambda>k. False) polygonized)))
     = [river_out, pond_out] \<and>
   progress (snd (snd (WaterObjectClassification_processAlgorithm (\<lambda>k. False) polygonized)))
     = [0, 50] \<and>
   polls (snd (snd (WaterObjectClassification_processAlgorithm (\<lambda>k. False) polygonized))) = 2"
  by (simp add: run_eq polygonized_water river_classified pond_classified Let_def py_int_def
      river_out_def pond_out_def)

lemma polygonized_cancelled_run:
  "fst (WaterObjectClassification_processAlgorithm (\<lambda>k. 1 \<le> k) polygonized) = None \<and>
   sink (snd (snd (WaterObjectClassification_processAlgorithm (\<lambda>k. 1 \<le> k) polygonized)))
     = [river_out] \<and>
   progress (snd (snd (WaterObjectClassification_processAlgorithm (\<lambda>k. 1 \<le> k) polygonized)))
     = [0] \<and>
   polls (snd (snd (WaterObjectClassification_processAlgorithm (\<lambda>k. 1 \<le> k) polygonized))) = 2"
  by (simp add: run_eq polygonized_water river_classified pond_classified Let_def py_int_def
      river_out_def pond_out_def)

text \<open>Claim C7 at \<open>polygonized\<close>: two of its three polygons have DN = 1.\<close>

theorem all_water_polygons_classified_witness:
  "features (extractbyattribute polygonized) = [river, pond] \<and>
   rect_well_formed (geometry river) \<and> rect_well_formed (geometry pond) \<and>
   sink (snd (snd (WaterObjectClassification_processAlgorithm (\<lambda>k. False) polygonized)))
     = [river_out, pond_out] \<and>
   (\<exists>flds st.
     WaterObjectClassification_processAlgorithm (\<lambda>k. False) polygonized = (None, flds, st) \<and>
     length (sink st) =
       length (filter (\<lambda>f. attribute polygonized f ''DN'' = Some (VInt 1)) (features polygonized)) \<and>
     (\<Sum>c\<leftarrow>[Reka, Ozero, Erik, Prud, Vodoyom].
         length (filter (\<lambda>new_f. last (attributes new_f) = VClass c) (sink st))) =
       length (filter (\<lambda>f. attribute polygonized f ''DN'' = Some (VInt 1)) (features polygonized)) \<and>
     list_all2
       (\<lambda>f new_f. process_feature f = Inr new_f \<and>
                  geometry new_f = geometry f \<and>
                  take (length (attributes f)) (attributes new_f) = attributes f \<and>
                  length (attributes new_f) = length (attributes f) + 5)
       (filter (\<lambda>f. attribute polygonized f ''DN'' = Some (VInt 1)) (features polygonized))
       (sink st))"
proof -
  have h1: "\<forall>k. \<not> (\<lambda>k. False) k" by simp
  have h2: "\<forall>f\<in>set (features (extractbyattribute polygonized)). rect_well_formed (geometry f)"
    by (rule polygonized_well_formed)
  have wf: "rect_well_formed (geometry river)" "rect_well_formed (geometry pond)"
    using h2 by (simp_all add: polygonized_water)
  show ?thesis
    using polygonized_water wf polygonized_full_run
      all_water_polygons_classified [OF h1 h2]
    by (elim conjE, intro conjI) assumption+
qed

text \<open>Claim C9 at \<open>polygonized\<close>, cancelled from the second call on.\<close>

theorem cancellation_yields_prefix_witness:
  "rect_well_formed (geometry river) \<and> rect_well_formed (geometry pond) \<and>
   length (features (extractbyattribute polygonized)) = 2 \<and>
   sink (snd (snd (WaterObjectClassification_processAlgorithm (\<lambda>k. 1 \<le> k) polygonized)))
     = [river_out] \<and>
   sink (snd (snd (WaterObjectClassification_processAlgorithm (\<lambda>k. False) polygonized)))
     = [river_out, pond_out] \<and>
   strict_prefix [river_out] [river_out, pond_out] \<and>
   (\<exists>m flds st_c st_full.
     WaterObjectClassification_processAlgorithm (\<lambda>k. 1 \<le> k) polygonized = (None, flds, st_c) \<and>
     WaterObjectClassification_processAlgorithm (\<lambda>j. False) polygonized = (None, flds, st_full) \<and>
     list_all2 (\<lambda>f new_f. process_feature f = Inr new_f)
       (features (extractbyattribute polygonized)) (sink st_full) \<and>
     polls st_full = length (sink st_full) \<and>
     m \<le> length (sink st_full) \<and> (\<forall>j<m. \<not> 1 \<le> j) \<and>
     sink st_c = take m (sink st_full) \<and>
     1 \<le> m \<and> strict_prefix (sink st_c) (sink st_full) \<and>
     polls st_c = length (sink st_c) + 1)"
proof -
  have wf: "rect_well_formed (geometry river)" "rect_well_formed (geometry pond)"
    using polygonized_well_formed by (simp_all add: polygonized_water)
  have len: "length (features (extractbyattribute polygonized)) = 2"
    by (simp add: polygonized_water)
  have seen: "\<exists>k<length (features (extractbyattribute polygonized)). (1::nat) \<le> k"
    unfolding len by (rule exI [of _ 1]) simp
  have sp: "strict_prefix [river_out] [river_out, pond_out]"
    by (simp add: strict_prefix_def)
  from cancellation_yields_prefix [OF polygonized_well_formed, of "\<lambda>k. 1 \<le> k"] seen
  have "\<exists>m flds st_c st_full.
     WaterObjectClassification_processAlgorithm (\<lambda>k. 1 \<le> k) polygonized = (None, flds, st_c) \<and>
     WaterObjectClassification_processAlgorithm (\<lambda>j. False) polygonized = (None, flds, st_full) \<and>
     list_all2 (\<lambda>f new_f. process_feature f = Inr new_f)
       (features (extractbyattribute polygonized)) (sink st_full) \<and>
     polls st_full = length (sink st_full) \<and>
     m \<le> length (sink st_full) \<and> (\<forall>j<m. \<not> 1 \<le> j) \<and>
     sink st_c = take m (sink st_full) \<and>
     1 \<le> m \<and> strict_prefix (sink st_c) (sink st_full) \<and>
     polls st_c = length (sink st_c) + 1"
    by blast
  with wf len sp polygonized_cancelled_run polygonized_full_run show ?thesis
    by (elim conjE, intro conjI) assumption+
qed

text \<open>Claim C10 at the river of \<open>polygonized\<close>.\<close>

theorem emitted_features_bounds_witness:
  "sink (snd (snd (WaterObjectClassification_processAlgorithm (\<lambda>k. False) polygonized)))
     = [river_out, pond_out] \<and>
   elongation_main_axis (geometry river) = Inr (5, 10000) \<and>
   (\<exists>f elongation main_axis.
        f \<in> set (features (extractbyattribute polygonized)) \<and>
        elongation_main_axis (geometry f) = Inr (elongation, main_axis) \<and>
        geometry river_out = geometry f \<and>
        attributes river_out = attributes f @
          [VDouble (geom_area (geometry f)), VDouble (geom_length (geometry f)),
           VDouble elongation, VDouble main_axis,
           VClass (classify (geom_area (geometry f)) elongation main_axis)] \<and>
        1 \<le> elongation \<and> 0 \<le> main_axis \<and>
        ((orientedMinimumBoundingBox (geometry f) = None \<or>
          (\<exists>r. orientedMinimumBoundingBox (geometry f) = Some r \<and> \<not> isGeosValid r)) \<longrightarrow>
           elongation = 1 \<and> main_axis = 0) \<and>
        (\<forall>r rc others lens.
           orientedMinimumBoundingBox (geometry f) = Some r \<and> isGeosValid r \<and>
           asPolygon r = rc # others \<and> side_lengths rc = Inr lens \<longrightarrow>
           (\<forall>d\<in>set lens. 0 \<le> d) \<and>
           elongation = (if 0 < Min (set lens) then Max (set lens) / Min (set lens) else 1) \<and>
           main_axis = Max (set lens)))"
proof -
  have snk: "sink (snd (snd (WaterObjectClassification_processAlgorithm (\<lambda>k. False) polygonized)))
     = [river_out, pond_out]"
    using polygonized_full_run by blast
  then have mem: "river_out \<in>
      set (sink (snd (snd (WaterObjectClassification_processAlgorithm (\<lambda>k. False) polygonized))))"
    by simp
  show ?thesis
    using snk river_features
      emitted_features_bounds [of "\<lambda>k. False" polygonized, THEN bspec, OF mem]
    by (intro conjI) assumption+
qed

end
